theory Spec2Isabelle
  imports Main
begin

section \<open>Python strings\<close>

text \<open>
  Text is modelled as \<^typ>\<open>string\<close>, one \<^typ>\<open>char\<close> per character. The character
  classes and the case mapping below are those of Python on the ASCII range; a character
  above it is treated as a character without case that is neither a letter, a digit nor
  white space.
\<close>

definition is_upper :: "char \<Rightarrow> bool" where
  "is_upper c = (let n = (of_char c :: nat) in 65 \<le> n \<and> n \<le> 90)"

definition is_lower :: "char \<Rightarrow> bool" where
  "is_lower c = (let n = (of_char c :: nat) in 97 \<le> n \<and> n \<le> 122)"

definition is_digit :: "char \<Rightarrow> bool" where
  "is_digit c = (let n = (of_char c :: nat) in 48 \<le> n \<and> n \<le> 57)"

text \<open>\<open>str.isspace\<close> on one character: TAB, LF, VT, FF, CR, FS, GS, RS, US and the space.\<close>

definition is_space :: "char \<Rightarrow> bool" where
  "is_space c = (let n = (of_char c :: nat) in (9 \<le> n \<and> n \<le> 13) \<or> (28 \<le> n \<and> n \<le> 32))"

definition lower_char :: "char \<Rightarrow> char" where
  "lower_char c = (if is_upper c then char_of ((of_char c :: nat) + 32) else c)"

text \<open>\<open>s.lower()\<close>\<close>

definition lower :: "string \<Rightarrow> string" where
  "lower s = map lower_char s"

text \<open>\<open>sep.join(xs)\<close>\<close>

fun join :: "string \<Rightarrow> string list \<Rightarrow> string" where
  "join sep [] = []"
| "join sep [x] = x"
| "join sep (x # y # ys) = x @ sep @ join sep (y # ys)"

text \<open>\<open>str(n)\<close> for an integer: decimal digits, with a leading minus sign when negative.\<close>

definition digit_char :: "nat \<Rightarrow> char" where
  "digit_char d = ''0123456789'' ! d"

function str_nat :: "nat \<Rightarrow> string" where
  "str_nat n = (if n < 10 then [digit_char n] else str_nat (n div 10) @ [digit_char (n mod 10)])"
  by pat_completeness auto
termination
  by (relation "measure id") auto

declare str_nat.simps [simp del]

definition str_int :: "int \<Rightarrow> string" where
  "str_int i = (if i < 0 then CHR ''-'' # str_nat (nat (- i)) else str_nat (nat i))"

section \<open>Errors\<close>

text \<open>The exceptions the modelled code can raise, as values.\<close>

datatype error =
    FileNotFoundError
  | OSError
  | IndexError
  | KeyError string
  | ValueError
  | DatabaseError string

section \<open>Filter query builder (dash.py)\<close>

text \<open>
  A \<open>FilterSpec\<close> is a Python dict from column name to list of values; iteration follows
  insertion order, so it is an association list here.
\<close>

type_synonym filter_spec = "(string \<times> string list) list"

text \<open>The f-string \<open>LOWER({col}) IN ({placeholders})\<close> of \<open>build_where_clause\<close>.\<close>

definition clause_of :: "string \<Rightarrow> string list \<Rightarrow> string" where
  "clause_of col vals =
     ''LOWER('' @ col @ '') IN ('' @ join '','' (replicate (length vals) ''?'') @ '')''"

text \<open>
  The \<open>for col, vals in filters.items()\<close> loop, with the two accumulators
  \<open>clauses\<close> and \<open>params\<close>.
\<close>

fun where_loop :: "filter_spec \<Rightarrow> string list \<Rightarrow> string list \<Rightarrow> string list \<times> string list" where
  "where_loop [] clauses params = (clauses, params)"
| "where_loop ((col, vals) # rest) clauses params =
     (if vals \<noteq> []
      then where_loop rest (clauses @ [clause_of col vals]) (params @ map lower vals)
      else where_loop rest clauses params)"

definition build_where_clause :: "filter_spec \<Rightarrow> string \<times> string list" where
  "build_where_clause filters =
     (case where_loop filters [] [] of
        (clauses, params) \<Rightarrow>
          (if clauses \<noteq> [] then '' WHERE '' @ join '' AND '' clauses else [], params))"

text \<open>
  \<open>limit_clause = f"LIMIT {limit}" if limit else ""\<close>: the limit is an integer or
  \<open>None\<close>, and both \<open>None\<close> and \<open>0\<close> are falsy.
\<close>

definition limit_clause :: "int option \<Rightarrow> string" where
  "limit_clause limit =
     (case limit of
        None \<Rightarrow> []
      | Some n \<Rightarrow> (if n \<noteq> 0 then ''LIMIT '' @ str_int n else []))"

definition default_limit :: "int option" where
  "default_limit = Some 500000"

text \<open>The query text assembled by \<open>load_filtered_data\<close>.\<close>

definition query_text :: "string \<Rightarrow> filter_spec \<Rightarrow> int option \<Rightarrow> string" where
  "query_text table filters limit =
     ''SELECT * FROM '' @ table @ '' '' @ fst (build_where_clause filters) @ '' ''
       @ limit_clause limit @ '';''"

text \<open>
  The store is reached through \<open>pd.read_sql_query(query, conn, params=params or None)\<close>;
  the connection is modelled by what it answers to a query text and its bound parameters.
\<close>

type_synonym 'r connection = "string \<Rightarrow> string list option \<Rightarrow> error + 'r"

definition load_filtered_data ::
  "'r connection \<Rightarrow> string \<Rightarrow> filter_spec \<Rightarrow> int option \<Rightarrow> error + 'r" where
  "load_filtered_data conn table filters limit =
     (case build_where_clause filters of
        (where_clause, params) \<Rightarrow>
          conn (''SELECT * FROM '' @ table @ '' '' @ where_clause @ '' '' @ limit_clause limit @ '';'')
               (if params \<noteq> [] then Some params else None))"


section \<open>Text utilities used by the parsers (logs.py)\<close>

text \<open>\<open>s.strip()\<close>: white space removed at both ends.\<close>

definition strip :: "string \<Rightarrow> string" where
  "strip s = rev (dropWhile is_space (rev (dropWhile is_space s)))"

text \<open>
  \<open>s.split(maxsplit=k)\<close> with no separator: runs of white space separate the tokens,
  leading white space is skipped, and after \<open>k\<close> splits the rest of the string (its
  leading white space skipped) is the last token.
\<close>

fun split_max :: "nat \<Rightarrow> string \<Rightarrow> string list" where
  "split_max 0 s =
     (let r = dropWhile is_space s in if r = [] then [] else [r])"
| "split_max (Suc k) s =
     (let r = dropWhile is_space s in
      if r = [] then []
      else takeWhile (\<lambda>c. \<not> is_space c) r # split_max k (dropWhile (\<lambda>c. \<not> is_space c) r))"

text \<open>
  \<open>s.split()\<close> without a bound: a string of \<open>n\<close> characters has fewer than \<open>n + 1\<close>
  tokens, so \<open>n\<close> splits are never exhausted.
\<close>

definition split_all :: "string \<Rightarrow> string list" where
  "split_all s = split_max (length s) s"

section \<open>Regular expressions of the parsers\<close>

text \<open>
  Every pattern of logs.py is a sequence of quantified character classes, literal
  characters, capture groups that are not nested, and a final \<open>$\<close>. A pattern is a list of
  tokens: \<open>Rep c lo hi greedy\<close> is the class \<open>c\<close> repeated between \<open>lo\<close> and \<open>hi\<close> times
  (\<open>None\<close>: unbounded), \<open>Open\<close> and \<open>Close\<close> delimit a group, \<open>End\<close> is \<open>$\<close>.
\<close>

datatype tok = Rep "char \<Rightarrow> bool" nat "nat option" bool | Open | Close | End

text \<open>
  The repetition counts a backtracking matcher tries for one quantified class, in the order
  it tries them: longest first when greedy, shortest first when lazy.
\<close>

definition counts :: "(char \<Rightarrow> bool) \<Rightarrow> nat \<Rightarrow> nat option \<Rightarrow> bool \<Rightarrow> string \<Rightarrow> nat list" where
  "counts c lo hi greedy s =
     (let m = length (takeWhile c s);
          m' = (case hi of None \<Rightarrow> m | Some h \<Rightarrow> min h m);
          ks = [lo ..< Suc m']
      in if greedy then rev ks else ks)"

text \<open>
  \<open>rx ts s gs cur\<close> matches the tokens \<open>ts\<close> at the start of \<open>s\<close>; \<open>gs\<close> holds the groups
  closed so far (latest first) and \<open>cur\<close> the text consumed since the last \<open>Open\<close>. The
  result is the first match in backtracking order, as the list of group texts. \<open>$\<close> matches
  at the end of the string and before a newline that ends it.
\<close>

fun rx :: "tok list \<Rightarrow> string \<Rightarrow> string list \<Rightarrow> string \<Rightarrow> string list option"
  and rx_alt :: "tok list \<Rightarrow> string \<Rightarrow> string list \<Rightarrow> string \<Rightarrow> nat list \<Rightarrow> string list option" where
  "rx [] s gs cur = Some (rev gs)"
| "rx (Open # ts) s gs cur = rx ts s gs []"
| "rx (Close # ts) s gs cur = rx ts s (cur # gs) cur"
| "rx (End # ts) s gs cur = (if s = [] \<or> s = [CHR 0x0A] then rx ts s gs cur else None)"
| "rx (Rep c lo hi g # ts) s gs cur = rx_alt ts s gs cur (counts c lo hi g s)"
| "rx_alt ts s gs cur [] = None"
| "rx_alt ts s gs cur (k # ks) =
     (case rx ts (drop k s) gs (cur @ take k s) of
        Some r \<Rightarrow> Some r
      | None \<Rightarrow> rx_alt ts s gs cur ks)"

text \<open>\<open>pattern.match(s)\<close>: anchored at the start, \<open>m.groups()\<close> when it matches.\<close>

definition re_match :: "tok list \<Rightarrow> string \<Rightarrow> string list option" where
  "re_match ts s = rx ts s [] []"

text \<open>\<open>re.search(pattern, s)\<close>: the first position at which the pattern matches.\<close>

fun re_search :: "tok list \<Rightarrow> string \<Rightarrow> string list option" where
  "re_search ts [] = re_match ts []"
| "re_search ts (c # s) =
     (case re_match ts (c # s) of Some r \<Rightarrow> Some r | None \<Rightarrow> re_search ts s)"

definition is_word :: "char \<Rightarrow> bool" where
  "is_word c = (is_upper c \<or> is_lower c \<or> is_digit c \<or> c = CHR ''_'')"

definition not_space :: "char \<Rightarrow> bool" where
  "not_space c = (\<not> is_space c)"

definition any_char :: "char \<Rightarrow> bool" where
  "any_char c = (c \<noteq> CHR 0x0A)"

definition plus :: "(char \<Rightarrow> bool) \<Rightarrow> tok" where
  "plus c = Rep c 1 None True"

definition star :: "(char \<Rightarrow> bool) \<Rightarrow> tok" where
  "star c = Rep c 0 None True"

definition star_lazy :: "(char \<Rightarrow> bool) \<Rightarrow> tok" where
  "star_lazy c = Rep c 0 None False"

definition exactly :: "nat \<Rightarrow> (char \<Rightarrow> bool) \<Rightarrow> tok" where
  "exactly n c = Rep c n (Some n) True"

definition lit :: "char \<Rightarrow> tok" where
  "lit x = Rep (\<lambda>c. c = x) 1 (Some 1) True"

text \<open>A literal letter under \<open>re.IGNORECASE\<close>.\<close>

definition lit_ci :: "char \<Rightarrow> tok" where
  "lit_ci x = Rep (\<lambda>c. lower_char c = lower_char x) 1 (Some 1) True"

text \<open>\<open>^(\w+)\s+(\d+)\s+(\d+:\d+:\d+)\s+(\S+)\s+([^[]+)\[(\d+)\]:\s+(.*)$\<close>\<close>

definition mac_pattern :: "tok list" where
  "mac_pattern =
     [Open, plus is_word, Close, plus is_space,
      Open, plus is_digit, Close, plus is_space,
      Open, plus is_digit, lit CHR '':'', plus is_digit, lit CHR '':'', plus is_digit, Close,
      plus is_space,
      Open, plus not_space, Close, plus is_space,
      Open, plus (\<lambda>c. c \<noteq> CHR ''[''), Close, lit CHR ''['',
      Open, plus is_digit, Close, lit CHR '']'', lit CHR '':'', plus is_space,
      Open, star any_char, Close, End]"

text \<open>\<open>^(\d{2}-\d{2})\s+(\d{2}:\d{2}:\d{2}\.\d+)\s+(\d+)\s+(\d+)\s+([A-Z])\s+(\S+):\s+(.*)$\<close>\<close>

definition android_pattern :: "tok list" where
  "android_pattern =
     [Open, exactly 2 is_digit, lit CHR ''-'', exactly 2 is_digit, Close, plus is_space,
      Open, exactly 2 is_digit, lit CHR '':'', exactly 2 is_digit, lit CHR '':'',
            exactly 2 is_digit, lit CHR ''.'', plus is_digit, Close, plus is_space,
      Open, plus is_digit, Close, plus is_space,
      Open, plus is_digit, Close, plus is_space,
      Open, exactly 1 is_upper, Close, plus is_space,
      Open, plus not_space, Close, lit CHR '':'', plus is_space,
      Open, star any_char, Close, End]"

text \<open>
  The pattern of \<open>load_openstack_logs\<close>, with the named groups \<open>Logrecord\<close>, \<open>Date\<close>,
  \<open>Time\<close>, \<open>Pid\<close>, \<open>Level\<close>, \<open>Component\<close>, \<open>ADDR\<close> (\<open>\[.*?\]\<close>) and \<open>Content\<close>.
\<close>

definition openstack_pattern :: "tok list" where
  "openstack_pattern =
     [Open, plus not_space, Close, plus is_space,
      Open, exactly 4 is_digit, lit CHR ''-'', exactly 2 is_digit, lit CHR ''-'',
            exactly 2 is_digit, Close, plus is_space,
      Open, exactly 2 is_digit, lit CHR '':'', exactly 2 is_digit, lit CHR '':'',
            exactly 2 is_digit, lit CHR ''.'', plus is_digit, Close, plus is_space,
      Open, plus is_digit, Close, plus is_space,
      Open, plus is_word, Close, plus is_space,
      Open, plus not_space, Close, plus is_space,
      Open, lit CHR ''['', star_lazy any_char, lit CHR '']'', Close, plus is_space,
      Open, star any_char, Close, End]"

definition openstack_columns :: "string list" where
  "openstack_columns =
     [''Logrecord'', ''Date'', ''Time'', ''Pid'', ''Level'', ''Component'', ''ADDR'', ''Content'']"

text \<open>The file-name patterns given to \<open>find_file\<close>, searched with \<open>re.IGNORECASE\<close>.\<close>

definition dot_log_end :: "tok list" where
  "dot_log_end = [lit CHR ''.'', lit_ci CHR ''l'', lit_ci CHR ''o'', lit_ci CHR ''g'', End]"

definition bgl_file_pattern :: "tok list" where
  "bgl_file_pattern = [lit_ci CHR ''B'', lit_ci CHR ''G'', lit_ci CHR ''L''] @ dot_log_end"

definition ssh_file_pattern :: "tok list" where
  "ssh_file_pattern =
     [lit_ci CHR ''S'', lit_ci CHR ''S'', lit_ci CHR ''H'', star any_char] @ dot_log_end"

definition mac_file_pattern :: "tok list" where
  "mac_file_pattern =
     [lit_ci CHR ''M'', lit_ci CHR ''a'', lit_ci CHR ''c'', star any_char] @ dot_log_end"

definition android_file_pattern :: "tok list" where
  "android_file_pattern =
     [lit_ci CHR ''A'', lit_ci CHR ''n'', lit_ci CHR ''d'', lit_ci CHR ''r'', lit_ci CHR ''o'',
      lit_ci CHR ''i'', lit_ci CHR ''d'', star any_char] @ dot_log_end"

section \<open>Data frames\<close>

text \<open>
  A pandas \<open>DataFrame\<close> with the default index: the column labels and the rows, each row
  holding one cell per column. Only the operations logs.py uses are modelled.
\<close>

datatype cell = S string | I int | NaN | PyNone

record frame =
  columns :: "string list"
  rows :: "cell list list"

text \<open>\<open>str(x)\<close> of a cell, as \<open>df.astype(str)\<close> applies it.\<close>

fun cell_str :: "cell \<Rightarrow> string" where
  "cell_str (S s) = s"
| "cell_str (I i) = str_int i"
| "cell_str NaN = ''nan''"
| "cell_str PyNone = ''None''"

fun index_of :: "string \<Rightarrow> string list \<Rightarrow> nat option" where
  "index_of x [] = None"
| "index_of x (y # ys) = (if x = y then Some 0 else map_option Suc (index_of x ys))"

definition cell_at :: "nat \<Rightarrow> cell list \<Rightarrow> cell" where
  "cell_at i r = (if i < length r then r ! i else NaN)"

text \<open>\<open>df[name]\<close> read as a list of cells; \<open>None\<close> when there is no such column.\<close>

definition column :: "string \<Rightarrow> frame \<Rightarrow> cell list option" where
  "column name df = map_option (\<lambda>i. map (cell_at i) (rows df)) (index_of name (columns df))"

text \<open>
  \<open>pd.DataFrame(rows, columns=names)\<close> from a list of tuples: a \<open>ValueError\<close> when a row
  has another width than \<open>names\<close>.
\<close>

definition data_frame :: "string list \<Rightarrow> string list list \<Rightarrow> error + frame" where
  "data_frame names rs =
     (if list_all (\<lambda>r. length r = length names) rs
      then Inr \<lparr>columns = names, rows = map (map S) rs\<rparr>
      else Inl ValueError)"

text \<open>
  \<open>pd.DataFrame(rows)\<close> from a list of \<open>groupdict()\<close> results, which all have the keys
  \<open>names\<close>: the empty list gives a frame without columns.
\<close>

definition data_frame_dicts :: "string list \<Rightarrow> string list list \<Rightarrow> frame" where
  "data_frame_dicts names rs =
     (if rs = [] then \<lparr>columns = [], rows = []\<rparr>
      else \<lparr>columns = names, rows = map (map S) rs\<rparr>)"

text \<open>
  \<open>df.insert(0, "LineId", range(1, len(df) + 1))\<close>, in place: a \<open>ValueError\<close> when the
  column exists already.
\<close>

definition insert_line_id :: "frame \<Rightarrow> error + frame" where
  "insert_line_id df =
     (if ''LineId'' \<in> set (columns df) then Inl ValueError
      else Inr \<lparr>columns = ''LineId'' # columns df,
                rows = map (\<lambda>(i, r). I i # r) (zip [1 .. int (length (rows df))] (rows df))\<rparr>)"

text \<open>Writing one column whose values are aligned with the rows: replaced when it exists, appended otherwise.\<close>

definition put_column :: "string \<Rightarrow> cell list \<Rightarrow> frame \<Rightarrow> frame" where
  "put_column name vals df =
     (case index_of name (columns df) of
        Some i \<Rightarrow> df\<lparr>rows := map (\<lambda>(v, r). r[i := v]) (zip vals (rows df))\<rparr>
      | None \<Rightarrow> \<lparr>columns = columns df @ [name],
                  rows = map (\<lambda>(v, r). r @ [v]) (zip vals (rows df))\<rparr>)"

text \<open>
  \<open>df[name] = vals\<close> for a Python list \<open>vals\<close>. pandas first makes sure the frame has an
  index: a frame without rows takes its index from a non-empty list, so that it gets one
  row per value, with \<open>NaN\<close> in the columns it had. Otherwise the lengths must agree, or a
  \<open>ValueError\<close> is raised.
\<close>

definition set_item_list :: "string \<Rightarrow> cell list \<Rightarrow> frame \<Rightarrow> error + frame" where
  "set_item_list name vals df =
     (if rows df = [] \<and> vals \<noteq> []
      then Inr (put_column name vals
                  (df\<lparr>rows := map (\<lambda>v. replicate (length (columns df)) NaN) vals\<rparr>))
      else if length vals \<noteq> length (rows df) then Inl ValueError
      else Inr (put_column name vals df))"

text \<open>\<open>df[name] = v\<close> for a scalar \<open>v\<close>: the same value in every row.\<close>

definition set_item_scalar :: "string \<Rightarrow> cell \<Rightarrow> frame \<Rightarrow> frame" where
  "set_item_scalar name v df = put_column name (replicate (length (rows df)) v) df"

text \<open>\<open>df[names]\<close> for a list of labels: a new frame, or a \<open>KeyError\<close> for the first label that is no column.\<close>

fun indices_of :: "string list \<Rightarrow> string list \<Rightarrow> error + nat list" where
  "indices_of [] cols = Inr []"
| "indices_of (n # ns) cols =
     (case index_of n cols of
        None \<Rightarrow> Inl (KeyError n)
      | Some i \<Rightarrow> (case indices_of ns cols of Inl e \<Rightarrow> Inl e | Inr js \<Rightarrow> Inr (i # js)))"

definition select :: "string list \<Rightarrow> frame \<Rightarrow> error + frame" where
  "select names df =
     (case indices_of names (columns df) of
        Inl e \<Rightarrow> Inl e
      | Inr js \<Rightarrow> Inr \<lparr>columns = names, rows = map (\<lambda>r. map (\<lambda>j. cell_at j r) js) (rows df)\<rparr>)"

text \<open>\<open>df.rename(columns={old: new})\<close>: a new frame.\<close>

definition rename :: "string \<Rightarrow> string \<Rightarrow> frame \<Rightarrow> frame" where
  "rename old new df = df\<lparr>columns := map (\<lambda>c. if c = old then new else c) (columns df)\<rparr>"

text \<open>The \<open>LineId\<close> column as integers, when every cell of it is one.\<close>

fun int_cells :: "cell list \<Rightarrow> int list option" where
  "int_cells [] = Some []"
| "int_cells (I i # cs) = map_option ((#) i) (int_cells cs)"
| "int_cells (c # cs) = None"

definition line_ids :: "frame \<Rightarrow> int list option" where
  "line_ids df = (case column ''LineId'' df of None \<Rightarrow> None | Some cs \<Rightarrow> int_cells cs)"

section \<open>Schema normalizer (logs.py, standardize)\<close>

text \<open>
  Data frames are mutable objects that caller and callee share, so \<open>standardize\<close> runs on
  a store of frames: a reference is a position in the store, \<open>df.copy()\<close> and every
  operation that returns a new frame allocate, \<open>df[name] = ...\<close> and \<open>df.insert\<close> update
  in place.
\<close>

type_synonym store = "frame list"

text \<open>\<open>df.astype(str).agg(" ".join, axis=1)\<close>: per row, the cells as text joined by a space.\<close>

definition joined_rows :: "frame \<Rightarrow> cell list" where
  "joined_rows df = map (\<lambda>r. S (join '' '' (map cell_str r))) (rows df)"

text \<open>
  The body of \<open>standardize\<close> after its first \<open>if\<close>, on the frame \<open>df\<close> is bound to by
  then: select the content column, rename it, insert \<open>LineId\<close>, add the three constant
  columns.
\<close>

definition standardize_frame :: "frame \<Rightarrow> string \<Rightarrow> string \<Rightarrow> error + frame" where
  "standardize_frame d content_col source =
     (case select [content_col] d of
        Inl e \<Rightarrow> Inl e
      | Inr sel \<Rightarrow>
          (case insert_line_id (rename content_col ''Content'' sel) of
             Inl e \<Rightarrow> Inl e
           | Inr numbered \<Rightarrow>
               Inr (set_item_scalar ''Source'' (S source)
                     (set_item_scalar ''EventTemplate'' PyNone
                       (set_item_scalar ''EventId'' PyNone numbered)))))"

text \<open>
  \<open>standardize(df, content_col, source)\<close> on the store \<open>h\<close>, where \<open>df\<close> refers to the
  caller's frame: the store afterwards, and the reference to the result or the exception.

  In the fallback branch, \<open>agg\<close> on a frame without rows does not return a column but a
  frame with the columns of its argument, and assigning a frame of two or more columns to
  the single column \<open>Content\<close> raises \<open>ValueError\<close>, before the caller's frame is changed.
\<close>

definition standardize :: "store \<Rightarrow> nat \<Rightarrow> string \<Rightarrow> string \<Rightarrow> store \<times> (error + nat)" where
  "standardize h df content_col source =
     (if content_col \<notin> set (columns (h ! df)) \<and> rows (h ! df) = [] \<and>
         2 \<le> length (columns (h ! df))
      then (h, Inl ValueError)
      else
        (let (h1, df1) =
               (if content_col \<notin> set (columns (h ! df))
                then (h[df := put_column ''Content'' (joined_rows (h ! df)) (h ! df)], df)
                else (h @ [h ! df], length h))
         in case standardize_frame (h1 ! df1) content_col source of
              Inl e \<Rightarrow> (h1, Inl e)
            | Inr res \<Rightarrow> (h1 @ [res], Inr (length h1))))"

section \<open>Files\<close>

text \<open>
  What the loader sees of the file system: \<open>walk d\<close> is \<open>os.walk(d)\<close>, the directories
  under \<open>d\<close> with the names of their files; \<open>text_lines p\<close> is the sequence of lines that
  iterating over \<open>open(p, "r", errors="ignore")\<close> yields, each with its line end, or
  \<open>None\<close> when the file cannot be opened; \<open>csv_cells p\<close> is what the \<open>pd.read_csv\<close>
  call of the BGL branch makes of the text of \<open>p\<close>: the exception it raises (it decodes the
  file strictly), or the nine cells it reads from a line.
\<close>

record files =
  walk :: "string \<Rightarrow> (string \<times> string list) list"
  text_lines :: "string \<Rightarrow> string list option"
  csv_cells :: "string \<Rightarrow> error + (string \<Rightarrow> cell list)"

text \<open>\<open>os.path.join(a, b)\<close> on POSIX.\<close>

definition path_join :: "string \<Rightarrow> string \<Rightarrow> string" where
  "path_join a b =
     (if b \<noteq> [] \<and> hd b = CHR ''/'' then b
      else if a = [] \<or> last a = CHR ''/'' then a @ b
      else a @ ''/'' @ b)"

text \<open>The inner loop of \<open>find_file\<close> over the files of one directory.\<close>

fun first_matching :: "tok list \<Rightarrow> string list \<Rightarrow> string option" where
  "first_matching pat [] = None"
| "first_matching pat (f # fs) =
     (case re_search pat f of Some g \<Rightarrow> Some f | None \<Rightarrow> first_matching pat fs)"

fun find_in :: "tok list \<Rightarrow> (string \<times> string list) list \<Rightarrow> error + string" where
  "find_in pat [] = Inl FileNotFoundError"
| "find_in pat ((root, fs) # ds) =
     (case first_matching pat fs of
        Some f \<Rightarrow> Inr (path_join root f)
      | None \<Rightarrow> find_in pat ds)"

definition find_file :: "files \<Rightarrow> string \<Rightarrow> tok list \<Rightarrow> error + string" where
  "find_file fs dataset_dir pat = find_in pat (walk fs dataset_dir)"

definition open_lines :: "files \<Rightarrow> string \<Rightarrow> error + string list" where
  "open_lines fs p = (case text_lines fs p of None \<Rightarrow> Inl OSError | Some ls \<Rightarrow> Inr ls)"

section \<open>Format parsers (logs.py)\<close>

text \<open>
  The loop \<open>for line in f: m = pattern.match(line.strip()); if m: rows.append(m.groups())\<close>
  shared by \<open>parse_mac_log\<close>, \<open>parse_android_log\<close> and \<open>load_openstack_logs\<close>.
\<close>

fun match_lines :: "tok list \<Rightarrow> string list \<Rightarrow> string list list" where
  "match_lines pat [] = []"
| "match_lines pat (l # ls) =
     (case re_match pat (strip l) of
        Some g \<Rightarrow> g # match_lines pat ls
      | None \<Rightarrow> match_lines pat ls)"

definition mac_columns :: "string list" where
  "mac_columns = [''Month'', ''Date'', ''Time'', ''User'', ''Component'', ''PID'', ''Content'']"

definition android_columns :: "string list" where
  "android_columns = [''Date'', ''Time'', ''Pid'', ''Tid'', ''Level'', ''Component'', ''Content'']"

definition parse_mac_log :: "files \<Rightarrow> string \<Rightarrow> error + frame" where
  "parse_mac_log fs file_path =
     (case open_lines fs file_path of
        Inl e \<Rightarrow> Inl e
      | Inr ls \<Rightarrow> data_frame mac_columns (match_lines mac_pattern ls))"

definition parse_android_log :: "files \<Rightarrow> string \<Rightarrow> error + frame" where
  "parse_android_log fs file_path =
     (case open_lines fs file_path of
        Inl e \<Rightarrow> Inl e
      | Inr ls \<Rightarrow> data_frame android_columns (match_lines android_pattern ls))"

text \<open>The loop of \<open>load_openstack_logs\<close> over its files: the matched rows of all of them, in order.\<close>

fun openstack_rows :: "files \<Rightarrow> string list \<Rightarrow> error + string list list" where
  "openstack_rows fs [] = Inr []"
| "openstack_rows fs (p # ps) =
     (case open_lines fs p of
        Inl e \<Rightarrow> Inl e
      | Inr ls \<Rightarrow>
          (case openstack_rows fs ps of
             Inl e \<Rightarrow> Inl e
           | Inr rs \<Rightarrow> Inr (match_lines openstack_pattern ls @ rs)))"

definition load_openstack_logs :: "files \<Rightarrow> string list \<Rightarrow> error + frame" where
  "load_openstack_logs fs file_paths =
     (case openstack_rows fs file_paths of
        Inl e \<Rightarrow> Inl e
      | Inr rs \<Rightarrow> insert_line_id (data_frame_dicts openstack_columns rs))"

text \<open>
  The key-path (openssh) loop: \<open>parts = line.strip().split(maxsplit=5)\<close>, kept when
  \<open>len(parts) == 6\<close>.
\<close>

fun openssh_rows :: "string list \<Rightarrow> string list list" where
  "openssh_rows [] = []"
| "openssh_rows (l # ls) =
     (let parts = split_max 5 (strip l) in
      if length parts = 6 then parts # openssh_rows ls else openssh_rows ls)"

definition openssh_columns :: "string list" where
  "openssh_columns = [''Date'', ''Day'', ''Time'', ''Component'', ''Pid'', ''Content'']"

text \<open>
  The content pass of the BGL branch, \<open>[line.strip().split(maxsplit=9)[-1] for line in f]\<close>:
  \<open>[-1]\<close> of an empty list raises \<open>IndexError\<close>.
\<close>

fun bgl_contents :: "string list \<Rightarrow> error + string list" where
  "bgl_contents [] = Inr []"
| "bgl_contents (l # ls) =
     (let parts = split_max 9 (strip l) in
      if parts = [] then Inl IndexError
      else (case bgl_contents ls of Inl e \<Rightarrow> Inl e | Inr cs \<Rightarrow> Inr (last parts # cs)))"

definition bgl_columns :: "string list" where
  "bgl_columns =
     [''Label'', ''Timestamp'', ''Date'', ''Node'', ''Time'', ''NodeRepeat'', ''Type'',
      ''Component'', ''Level'']"

text \<open>
  Steps 2 and 3 of the BGL branch, given the frame of the structured pass and the lines of
  the file.
\<close>

definition bgl_attach :: "frame \<Rightarrow> string list \<Rightarrow> error + frame" where
  "bgl_attach df ls =
     (case bgl_contents ls of
        Inl e \<Rightarrow> Inl e
      | Inr contents \<Rightarrow>
          (case set_item_list ''Content'' (map S contents) df of
             Inl e \<Rightarrow> Inl e
           | Inr df' \<Rightarrow> insert_line_id df'))"

section \<open>Dataset loader (logs.py, load_dataset_to_sqlite)\<close>

text \<open>
  The SQLite database as the loader uses it: a table per name.
  \<open>df.to_sql(table_name, conn, if_exists="replace", index=False)\<close> drops a table of that
  name, creates the table for the columns of the frame and inserts its rows. SQLite can
  refuse the rows (a value it cannot bind): \<open>to_sql\<close> then raises with the new table left
  empty. Which frames it refuses is a parameter, \<open>ins df\<close> being the exception for the
  rows of \<open>df\<close>, if any. The result is the database afterwards and the exception raised.
\<close>

type_synonym database = "string \<Rightarrow> frame option"

type_synonym insertion = "frame \<Rightarrow> error option"

definition to_sql :: "insertion \<Rightarrow> database \<Rightarrow> string \<Rightarrow> frame \<Rightarrow> database \<times> error option" where
  "to_sql ins db table_name df =
     (case ins df of
        None \<Rightarrow> (db(table_name \<mapsto> df), None)
      | Some e \<Rightarrow> (db(table_name \<mapsto> df\<lparr>rows := []\<rparr>), Some e))"

text \<open>What the loader prints: the number of rows loaded, that it has no parser, or the failure.\<close>

datatype outcome = Loaded nat | NoParser | Failed error

text \<open>The frame each branch builds before the final \<open>to_sql\<close>.\<close>

text \<open>
  Step 1 of the BGL branch, \<open>pd.read_csv(file_path, sep=r"\s+", names=[...],
  engine="python", usecols=range(9), on_bad_lines="skip")\<close>. With a regular expression as
  separator the python engine strips each line and splits it, drops the lines that are
  empty then, and, \<open>usecols\<close> being given, keeps every other line whatever its number of
  fields (a short line is padded): the frame has one row per line that is not blank.
\<close>

definition structured_pass :: "files \<Rightarrow> string \<Rightarrow> error + frame" where
  "structured_pass fs file_path =
     (case open_lines fs file_path of
        Inl e \<Rightarrow> Inl e
      | Inr ls \<Rightarrow>
          (case csv_cells fs file_path of
             Inl e \<Rightarrow> Inl e
           | Inr cells \<Rightarrow>
               Inr \<lparr>columns = bgl_columns,
                    rows = map cells (filter (\<lambda>l. strip l \<noteq> []) ls)\<rparr>))"

definition bgl_frame :: "files \<Rightarrow> string \<Rightarrow> error + frame" where
  "bgl_frame fs dataset_dir =
     (case find_file fs dataset_dir bgl_file_pattern of
        Inl e \<Rightarrow> Inl e
      | Inr file_path \<Rightarrow>
          (case structured_pass fs file_path of
             Inl e \<Rightarrow> Inl e
           | Inr df \<Rightarrow>
               (case open_lines fs file_path of
                  Inl e \<Rightarrow> Inl e
                | Inr ls \<Rightarrow> bgl_attach df ls)))"

definition openssh_frame :: "files \<Rightarrow> string \<Rightarrow> error + frame" where
  "openssh_frame fs dataset_dir =
     (case find_file fs dataset_dir ssh_file_pattern of
        Inl e \<Rightarrow> Inl e
      | Inr file_path \<Rightarrow>
          (case open_lines fs file_path of
             Inl e \<Rightarrow> Inl e
           | Inr ls \<Rightarrow>
               (case data_frame openssh_columns (openssh_rows ls) of
                  Inl e \<Rightarrow> Inl e
                | Inr df \<Rightarrow> insert_line_id df)))"

definition openstack_frame :: "files \<Rightarrow> string \<Rightarrow> error + frame" where
  "openstack_frame fs dataset_dir =
     load_openstack_logs fs
       [path_join dataset_dir ''openstack_normal1.log'',
        path_join dataset_dir ''openstack_normal2.log'']"

definition mac_frame :: "files \<Rightarrow> string \<Rightarrow> error + frame" where
  "mac_frame fs dataset_dir =
     (case find_file fs dataset_dir mac_file_pattern of
        Inl e \<Rightarrow> Inl e
      | Inr file_path \<Rightarrow>
          (case parse_mac_log fs file_path of
             Inl e \<Rightarrow> Inl e
           | Inr df \<Rightarrow>
               (case insert_line_id df of
                  Inl e \<Rightarrow> Inl e
                | Inr df' \<Rightarrow> select (''LineId'' # mac_columns) df')))"

definition android_frame :: "files \<Rightarrow> string \<Rightarrow> error + frame" where
  "android_frame fs dataset_dir =
     (case find_file fs dataset_dir android_file_pattern of
        Inl e \<Rightarrow> Inl e
      | Inr file_path \<Rightarrow>
          (case parse_android_log fs file_path of
             Inl e \<Rightarrow> Inl e
           | Inr df \<Rightarrow>
               (case insert_line_id df of
                  Inl e \<Rightarrow> Inl e
                | Inr df' \<Rightarrow> select (''LineId'' # android_columns) df')))"

text \<open>
  The end of the \<open>try\<close> block and its \<open>except Exception\<close>: the frame is written and the
  number of its rows printed, or the failure is printed. A failure of a branch leaves the
  database as it was; a failure of \<open>to_sql\<close> leaves what \<open>to_sql\<close> left.
\<close>

definition store_frame ::
  "insertion \<Rightarrow> database \<Rightarrow> string \<Rightarrow> error + frame \<Rightarrow> database \<times> outcome" where
  "store_frame ins db table_name r =
     (case r of
        Inl e \<Rightarrow> (db, Failed e)
      | Inr df \<Rightarrow>
          (case to_sql ins db table_name df of
             (db', None) \<Rightarrow> (db', Loaded (length (rows df)))
           | (db', Some e) \<Rightarrow> (db', Failed e)))"

text \<open>The openstack branch writes its table itself, and the common end writes it again.\<close>

definition load_dataset_to_sqlite ::
  "files \<Rightarrow> insertion \<Rightarrow> database \<Rightarrow> string \<Rightarrow> string \<Rightarrow> database \<times> outcome" where
  "load_dataset_to_sqlite fs ins db name dataset_dir =
     (let table_name = ''logs_'' @ name in
      if name = ''bgl'' then store_frame ins db table_name (bgl_frame fs dataset_dir)
      else if name = ''openssh'' then store_frame ins db table_name (openssh_frame fs dataset_dir)
      else if name = ''openstack'' then
        (case openstack_frame fs dataset_dir of
           Inl e \<Rightarrow> (db, Failed e)
         | Inr df \<Rightarrow>
             (case to_sql ins db table_name df of
                (db', Some e) \<Rightarrow> (db', Failed e)
              | (db', None) \<Rightarrow> store_frame ins db' table_name (Inr df)))
      else if name = ''mac'' then store_frame ins db table_name (mac_frame fs dataset_dir)
      else if name = ''android_v1'' then
        store_frame ins db table_name (android_frame fs dataset_dir)
      else (db, NoParser))"

section \<open>Auxiliary definitions\<close>

text \<open>The number of groups of a pattern.\<close>

fun closes :: "tok list \<Rightarrow> nat" where
  "closes [] = 0"
| "closes (Close # ts) = Suc (closes ts)"
| "closes (t # ts) = closes ts"

text \<open>The rows of a frame after \<open>insert_line_id\<close>: each row behind its 1-based position.\<close>

definition numbered_rows :: "cell list list \<Rightarrow> cell list list" where
  "numbered_rows rs = map (\<lambda>(i, r). I i # r) (zip [1 .. int (length rs)] rs)"

text \<open>
  A small file system for concrete runs: every directory lists the same file names; the
  files differ by directory.
\<close>

definition nl :: string where
  "nl = [CHR 0x0A]"

definition sample_lines :: "string \<Rightarrow> string list option" where
  "sample_lines p =
     (if p = ''raw/mac/Mac.log'' then
        Some [''Jan 1 00:00:01 host kernel[123]: boot complete'' @ nl,
              ''-- last message repeated 2 times --'' @ nl,
              ''Feb 12 10:00:01 mb app[7]: x y'']
      else if p = ''raw/android_v1/Android.log'' then
        Some [''01-01 00:00:01.123 100 200 I TagX: started'' @ nl, nl]
      else if p = ''raw/openssh/SSH.log'' then
        Some [''a b c d'' @ nl,
              ''Dec 10 06:55:46 LabSZ sshd[24200]: reverse mapping  checking'' @ nl]
      else if p = ''raw/openstack/openstack_normal1.log'' then
        Some [''nova-api.log.1 2017-05-16 00:00:00.008 25746 INFO nova.osapi [req-38 - -] GET /v2'' @ nl]
      else if p = ''raw/openstack/openstack_normal2.log'' then
        Some [''Traceback (most recent call last):'' @ nl,
              ''nova-api.log.2 2017-05-17 00:00:04.500 25746 INFO nova.wsgi [req-39 - -] status: 200'' @ nl]
      else if p = ''raw/bgl/BGL.log'' then
        Some [''- 1117838570 2005.06.03 R02-M1 2005-06-03-15.42.50 R02-M1 RAS KERNEL INFO cache parity error'' @ nl]
      else if p = ''raw/bgl_blank/BGL.log'' then
        Some [''- 1117838570 2005.06.03 R02-M1 2005-06-03-15.42.50 R02-M1 RAS KERNEL INFO cache parity error'' @ nl,
              nl]
      else None)"

definition sample_structured_row :: "cell list" where
  "sample_structured_row =
     [S ''-'', I 1117838570, S ''2005.06.03'', S ''R02-M1'', S ''2005-06-03-15.42.50'',
      S ''R02-M1'', S ''RAS'', S ''KERNEL'', S ''INFO'']"

text \<open>The nine cells of the one line of the sample BGL files that is not blank.\<close>

definition sample_csv :: "string \<Rightarrow> error + (string \<Rightarrow> cell list)" where
  "sample_csv p =
     (if p = ''raw/bgl/BGL.log'' \<or> p = ''raw/bgl_blank/BGL.log''
      then Inr (\<lambda>l. sample_structured_row)
      else Inl OSError)"

definition sample_files :: files where
  "sample_files =
     \<lparr>walk = (\<lambda>d. [(d, [''README.md'', ''Mac.log'', ''Android.log'', ''SSH.log'', ''BGL.log''])]),
      text_lines = sample_lines,
      csv_cells = sample_csv\<rparr>"

text \<open>An SQLite that accepts every frame, and one that refuses every frame.\<close>

definition accept_all :: insertion where
  "accept_all df = None"

definition refuse_all :: insertion where
  "refuse_all df = Some (DatabaseError ''Error binding parameter'')"

text \<open>
  The frame the loader builds for a source name, \<open>None\<close> for a name without a parser.
\<close>

definition source_frame :: "files \<Rightarrow> string \<Rightarrow> string \<Rightarrow> (error + frame) option" where
  "source_frame fs name dataset_dir =
     (if name = ''bgl'' then Some (bgl_frame fs dataset_dir)
      else if name = ''openssh'' then Some (openssh_frame fs dataset_dir)
      else if name = ''openstack'' then Some (openstack_frame fs dataset_dir)
      else if name = ''mac'' then Some (mac_frame fs dataset_dir)
      else if name = ''android_v1'' then Some (android_frame fs dataset_dir)
      else None)"

section \<open>Properties of the text utilities\<close>

lemma str_nat_small: "n < 10 \<Longrightarrow> str_nat n = [digit_char n]"
  by (subst str_nat.simps) simp

lemma str_nat_big: "10 \<le> n \<Longrightarrow> str_nat n = str_nat (n div 10) @ [digit_char (n mod 10)]"
  by (subst str_nat.simps) simp

lemma str_nat_500000: "str_nat 500000 = ''500000''"
  by (simp add: str_nat_small str_nat_big digit_char_def)

lemma str_nat_not_Nil: "str_nat n \<noteq> []"
  by (subst str_nat.simps) simp

lemma digit_char_zero: "d < 10 \<Longrightarrow> digit_char d = CHR ''0'' \<longleftrightarrow> d = 0"
proof -
  assume d: "d < 10"
  have "distinct ''0123456789''" by simp
  then have "(''0123456789'' ! d = ''0123456789'' ! 0) = (d = 0)"
    using d by (intro nth_eq_iff_index_eq) simp_all
  then show ?thesis
    by (simp add: digit_char_def)
qed

lemma str_nat_zero: "str_nat n = ''0'' \<longleftrightarrow> n = 0"
proof (cases "n < 10")
  case True
  then show ?thesis by (simp add: str_nat_small digit_char_zero)
next
  case False
  then have ge: "10 \<le> n" by simp
  have "length (str_nat n) = Suc (length (str_nat (n div 10)))"
    by (subst str_nat_big [OF ge]) simp
  moreover have "0 < length (str_nat (n div 10))"
    using str_nat_not_Nil [of "n div 10"] by simp
  ultimately have "length (str_nat n) \<noteq> length ''0''" by simp
  then have "str_nat n \<noteq> ''0''" by metis
  with ge show ?thesis by simp
qed

lemma str_int_zero: "str_int i = ''0'' \<longleftrightarrow> i = 0"
  by (auto simp: str_int_def str_nat_zero)

section \<open>Properties of the filter query builder\<close>

lemma where_loop_eq:
  "where_loop filters clauses params =
     (clauses @ map (\<lambda>(col, vals). clause_of col vals) (filter (\<lambda>(col, vals). vals \<noteq> []) filters),
      params @ concat (map (\<lambda>(col, vals). map lower vals) (filter (\<lambda>(col, vals). vals \<noteq> []) filters)))"
  by (induction filters clauses params rule: where_loop.induct) simp_all

lemma build_where_clause_eq:
  "build_where_clause filters =
     (let active = filter (\<lambda>(col, vals). vals \<noteq> []) filters in
      (if active = [] then []
       else '' WHERE '' @ join '' AND '' (map (\<lambda>(col, vals). clause_of col vals) active),
       concat (map (\<lambda>(col, vals). map lower vals) active)))"
  by (simp add: build_where_clause_def where_loop_eq Let_def)

lemma clause_of_values: "clause_of col (map f vals) = clause_of col vals"
  by (simp add: clause_of_def)

lemma where_text_values:
  "fst (build_where_clause (map (\<lambda>(col, vals). (col, map (\<lambda>v. []) vals)) filters)) =
   fst (build_where_clause filters)"
proof -
  let ?g = "\<lambda>(col, vals). (col, map (\<lambda>v::string. ([]::string)) vals)"
  have a: "filter (\<lambda>(col, vals). vals \<noteq> []) (map ?g filters) =
        map ?g (filter (\<lambda>(col, vals). vals \<noteq> []) filters)"
    by (induction filters) auto
  have b: "map (\<lambda>(col, vals). clause_of col vals) (map ?g xs) = map (\<lambda>(col, vals). clause_of col vals) xs" for xs
    by (induction xs) (auto simp: clause_of_def)
  show ?thesis
    unfolding build_where_clause_eq Let_def a b by simp
qed


lemma load_filtered_data_query:
  "load_filtered_data conn table filters limit =
     conn (query_text table filters limit)
          (if snd (build_where_clause filters) = [] then None
           else Some (snd (build_where_clause filters)))"
  by (simp add: load_filtered_data_def query_text_def split: prod.split)

lemma lower_examples:
  "lower ''RTL_TEAM'' = ''rtl_team''" "lower ''Dv'' = ''dv''" "lower ''CPU'' = ''cpu''" "lower ''X'' = ''x''"
  by code_simp+

text \<open>
  Claim C1. For every filter spec, \<open>build_where_clause\<close> emits one clause
  \<open>LOWER(column) IN (?,...,?)\<close> per column with a non-empty value list, in the order of the
  spec, with one placeholder per value; the clauses are joined with \<open>AND\<close> after
  \<open>WHERE\<close>; the parameters are the values of these columns, lower-cased, in order;
  a column with an empty list contributes nothing. The text does not depend on the values
  (it is the same when every value is replaced by the empty string), so no value is
  interpolated. For the empty spec there is no \<open>WHERE\<close> section, and the spec
  \<open>{"team": ["RTL_TEAM"]}\<close> binds the single parameter \<open>rtl_team\<close>.
\<close>

theorem build_where_clause_spec:
  "build_where_clause filters =
     (let active = filter (\<lambda>(col, vals). vals \<noteq> []) filters in
      (if active = [] then []
       else '' WHERE '' @
            join '' AND ''
              (map (\<lambda>(col, vals).
                      ''LOWER('' @ col @ '') IN ('' @ join '','' (replicate (length vals) ''?'') @ '')'')
                 active),
       concat (map (\<lambda>(col, vals). map lower vals) active)))
   \<and> fst (build_where_clause (map (\<lambda>(col, vals). (col, map (\<lambda>v. []) vals)) filters)) =
       fst (build_where_clause filters)
   \<and> build_where_clause [] = ([], [])
   \<and> build_where_clause [(''team'', [''RTL_TEAM''])] = ('' WHERE LOWER(team) IN (?)'', [''rtl_team''])"
proof (intro conjI)
  show "build_where_clause filters =
     (let active = filter (\<lambda>(col, vals). vals \<noteq> []) filters in
      (if active = [] then []
       else '' WHERE '' @
            join '' AND ''
              (map (\<lambda>(col, vals).
                      ''LOWER('' @ col @ '') IN ('' @ join '','' (replicate (length vals) ''?'') @ '')'')
                 active),
       concat (map (\<lambda>(col, vals). map lower vals) active)))"
    unfolding build_where_clause_eq clause_of_def by (rule refl)
  show "fst (build_where_clause (map (\<lambda>(col, vals). (col, map (\<lambda>v. []) vals)) filters)) =
       fst (build_where_clause filters)"
    by (rule where_text_values)
  show "build_where_clause [] = ([], [])"
    by (simp add: build_where_clause_def)
  show "build_where_clause [(''team'', [''RTL_TEAM''])] = ('' WHERE LOWER(team) IN (?)'', [''rtl_team''])"
    by (simp add: build_where_clause_def clause_of_def lower_examples)
qed

theorem build_where_clause_spec_witness:
  "build_where_clause [(''team'', [''RTL_TEAM'', ''Dv'']), (''chip_id'', []), (''design_block'', [''CPU''])] =
     ('' WHERE LOWER(team) IN (?,?) AND LOWER(design_block) IN (?)'', [''rtl_team'', ''dv'', ''cpu''])"
  using build_where_clause_spec
          [of "[(''team'', [''RTL_TEAM'', ''Dv'']), (''chip_id'', []), (''design_block'', [''CPU''])]"]
  by (simp add: lower_examples)

text \<open>
  Claim C9. The row bound is applied only when the limit is truthy: with the default limit
  the query that reaches the store ends in \<open>LIMIT 500000;\<close>, with \<open>limit=0\<close> and with
  \<open>limit=None\<close> it has no \<open>LIMIT\<close> clause; no limit value produces \<open>LIMIT 0\<close>, and every
  other integer, whatever its sign or size, is written into the clause as it is.
\<close>

theorem limit_clause_truthy:
  "load_filtered_data conn table filters default_limit =
     conn (''SELECT * FROM '' @ table @ '' '' @ fst (build_where_clause filters) @ '' LIMIT 500000;'')
          (if snd (build_where_clause filters) = [] then None else Some (snd (build_where_clause filters)))
   \<and> load_filtered_data conn table filters (Some 0) =
     conn (''SELECT * FROM '' @ table @ '' '' @ fst (build_where_clause filters) @ '' ;'')
          (if snd (build_where_clause filters) = [] then None else Some (snd (build_where_clause filters)))
   \<and> load_filtered_data conn table filters None = load_filtered_data conn table filters (Some 0)
   \<and> limit_clause limit \<noteq> ''LIMIT 0''
   \<and> limit_clause (Some n) = (if n = 0 then [] else ''LIMIT '' @ str_int n)"
proof (intro conjI)
  have d: "limit_clause default_limit = ''LIMIT 500000''"
    by (simp add: limit_clause_def default_limit_def str_int_def str_nat_500000)
  show "load_filtered_data conn table filters default_limit =
     conn (''SELECT * FROM '' @ table @ '' '' @ fst (build_where_clause filters) @ '' LIMIT 500000;'')
          (if snd (build_where_clause filters) = [] then None else Some (snd (build_where_clause filters)))"
    by (simp add: load_filtered_data_query query_text_def d)
  show "load_filtered_data conn table filters (Some 0) =
     conn (''SELECT * FROM '' @ table @ '' '' @ fst (build_where_clause filters) @ '' ;'')
          (if snd (build_where_clause filters) = [] then None else Some (snd (build_where_clause filters)))"
    by (simp add: load_filtered_data_query query_text_def limit_clause_def)
  show "load_filtered_data conn table filters None = load_filtered_data conn table filters (Some 0)"
    by (simp add: load_filtered_data_query query_text_def limit_clause_def)
  show "limit_clause limit \<noteq> ''LIMIT 0''"
    by (cases limit) (simp_all add: limit_clause_def str_int_zero)
  show "limit_clause (Some n) = (if n = 0 then [] else ''LIMIT '' @ str_int n)"
    by (simp add: limit_clause_def)
qed

lemma str_int_minus_one: "str_int (- 1) = ''-1''"
  by (simp add: str_int_def str_nat_small digit_char_def)

theorem limit_clause_truthy_witness:
  "load_filtered_data (\<lambda>q ps. Inr (q, ps)) ''logs_mac'' [] (Some 0) =
     (Inr (''SELECT * FROM logs_mac  ;'', None) :: error + string \<times> string list option)
   \<and> load_filtered_data (\<lambda>q ps. Inr (q, ps)) ''logs_mac'' [] None =
     (Inr (''SELECT * FROM logs_mac  ;'', None) :: error + string \<times> string list option)
   \<and> load_filtered_data (\<lambda>q ps. Inr (q, ps)) ''logs_mac'' [] default_limit =
     (Inr (''SELECT * FROM logs_mac  LIMIT 500000;'', None) :: error + string \<times> string list option)
   \<and> limit_clause (Some (- 1)) = ''LIMIT -1''"
  using limit_clause_truthy [of "\<lambda>q ps. Inr (q, ps)" "''logs_mac''" "[]" "Some 0" "- 1"]
  by (simp add: build_where_clause_def str_int_minus_one)

text \<open>
  Claim C3 states that a filter on a column that the table does not have fails with an
  "invalid column" error before the query is executed. It does not: neither
  \<open>build_where_clause\<close> nor \<open>load_filtered_data\<close> is given a schema, and the query
  with the unknown column reaches the store.
\<close>

theorem unknown_column_reaches_store:
  "''nosuch'' \<notin> set [''LineId'', ''Content'']
   \<and> load_filtered_data (\<lambda>q ps. Inr (q, ps)) ''logs_mac'' [(''nosuch'', [''X''])] default_limit =
     (Inr (''SELECT * FROM logs_mac  WHERE LOWER(nosuch) IN (?) LIMIT 500000;'', Some [''x''])
        :: error + string \<times> string list option)"
  by (simp add: load_filtered_data_def build_where_clause_def clause_of_def lower_examples
        limit_clause_def default_limit_def str_int_def str_nat_500000)

text \<open>
  Claim C3, amended. No column name is validated before execution: for every filter spec
  \<open>load_filtered_data\<close> passes its query and parameters to the store and returns the
  store's answer, and a constrained column is written into the \<open>WHERE\<close> clause as it was
  given; an error for an unknown column can only be the store's own.
\<close>

theorem filter_columns_not_validated:
  "load_filtered_data conn table filters limit =
     conn (query_text table filters limit)
          (if snd (build_where_clause filters) = [] then None
           else Some (snd (build_where_clause filters)))
   \<and> fst (build_where_clause [(col, v # vs)]) =
       '' WHERE LOWER('' @ col @ '') IN ('' @ join '','' (replicate (Suc (length vs)) ''?'') @ '')''"
  by (simp add: load_filtered_data_query build_where_clause_def clause_of_def)

theorem filter_columns_not_validated_witness:
  "load_filtered_data (\<lambda>q ps. if q = query_text ''logs_mac'' [(''nosuch'', [''X''])] None
                                then Inl (DatabaseError ''no such column: nosuch'') else Inr ())
      ''logs_mac'' [(''nosuch'', [''X''])] None
     = Inl (DatabaseError ''no such column: nosuch'')"
  using filter_columns_not_validated
          [of "\<lambda>q ps. if q = query_text ''logs_mac'' [(''nosuch'', [''X''])] None
                         then Inl (DatabaseError ''no such column: nosuch'') else Inr ()"
              "''logs_mac''" "[(''nosuch'', [''X''])]" None "''nosuch''" "''X''" "[]"]
  by simp

section \<open>Properties of the schema normalizer\<close>

lemma index_of_None_iff: "index_of x xs = None \<longleftrightarrow> x \<notin> set xs"
  by (induction xs) auto

lemma index_of_less: "index_of x xs = Some i \<Longrightarrow> i < length xs \<and> xs ! i = x"
  by (induction xs arbitrary: i) (auto split: if_splits)

lemma columns_put_column:
  "columns (put_column name vals df) =
     (if name \<in> set (columns df) then columns df else columns df @ [name])"
  by (cases "index_of name (columns df)") (auto simp: put_column_def index_of_None_iff [symmetric])

lemma select_single:
  "select [c] d = (if c \<in> set (columns d) then Inr \<lparr>columns = [c], rows = map (\<lambda>r. [cell_at (the (index_of c (columns d))) r]) (rows d)\<rparr> else Inl (KeyError c))"
  by (cases "index_of c (columns d)") (auto simp: select_def index_of_None_iff [symmetric])

lemma standardize_frame_present:
  "content_col \<in> set (columns d) \<Longrightarrow> \<exists>res. standardize_frame d content_col source = Inr res"
  by (simp add: standardize_frame_def select_single insert_line_id_def rename_def)

lemma standardize_frame_absent:
  "content_col \<notin> set (columns d) \<Longrightarrow> standardize_frame d content_col source = Inl (KeyError content_col)"
  by (simp add: standardize_frame_def select_single)

text \<open>
  Claim C5 (the fallback for an absent content field). The fallback writes the joined
  field values into a column named \<open>Content\<close>, but the next statement selects the
  column named by \<open>content_col\<close>: for a designated field other than \<open>Content\<close> that the
  table lacks, \<open>standardize\<close> ends in a \<open>KeyError\<close> instead of a result. Here the table
  has the fields \<open>Date\<close> and \<open>Msg\<close> and the designated field is \<open>Text\<close>.
\<close>

theorem standardize_absent_field_key_error:
  "standardize [\<lparr>columns = [''Date'', ''Msg''], rows = [[S ''Dec'', S ''boot'']]\<rparr>] 0 ''Text'' ''mac'' =
     ([\<lparr>columns = [''Date'', ''Msg'', ''Content''], rows = [[S ''Dec'', S ''boot'', S ''Dec boot'']]\<rparr>],
      Inl (KeyError ''Text''))"
  by (simp add: standardize_def put_column_def joined_rows_def standardize_frame_def select_def)

text \<open>The same for every table and every absent designated field other than \<open>Content\<close>.\<close>

lemma standardize_absent_other_name:
  "content_col \<notin> set (columns (h ! df)) \<Longrightarrow> content_col \<noteq> ''Content'' \<Longrightarrow> df < length h \<Longrightarrow>
   rows (h ! df) \<noteq> [] \<Longrightarrow>
   snd (standardize h df content_col source) = Inl (KeyError content_col)"
  by (simp add: standardize_def columns_put_column standardize_frame_absent)

text \<open>
  A table without rows and with two or more fields: the fallback raises before it writes,
  and the store is left as it was.
\<close>

lemma standardize_empty_frame_error:
  "content_col \<notin> set (columns (h ! df)) \<Longrightarrow> rows (h ! df) = [] \<Longrightarrow>
   2 \<le> length (columns (h ! df)) \<Longrightarrow>
   standardize h df content_col source = (h, Inl ValueError)"
  by (simp add: standardize_def)

text \<open>
  Claim C10. When the designated content field is absent from a table that has rows,
  \<open>standardize\<close> writes the column \<open>Content\<close> into the caller's frame: after the call the
  caller's reference holds the frame with that column set to the joined rows, which
  differs from the frame before when it had no \<open>Content\<close> column. When the field is
  present, every frame that was in the store is unchanged, the caller's one included.
\<close>

theorem standardize_frame_effect:
  assumes "df < length h"
  shows "(content_col \<notin> set (columns (h ! df)) \<and> rows (h ! df) \<noteq> [] \<longrightarrow>
            fst (standardize h df content_col source) ! df =
              put_column ''Content'' (joined_rows (h ! df)) (h ! df)
          \<and> ''Content'' \<in> set (columns (fst (standardize h df content_col source) ! df)))
       \<and> (content_col \<notin> set (columns (h ! df)) \<and> ''Content'' \<notin> set (columns (h ! df)) \<and>
          rows (h ! df) \<noteq> [] \<longrightarrow>
            fst (standardize h df content_col source) ! df \<noteq> h ! df)
       \<and> (content_col \<in> set (columns (h ! df)) \<longrightarrow>
            take (length h) (fst (standardize h df content_col source)) = h
          \<and> fst (standardize h df content_col source) ! df = h ! df)"
proof (intro conjI impI)
  let ?d = "put_column ''Content'' (joined_rows (h ! df)) (h ! df)"
  {
    assume a: "content_col \<notin> set (columns (h ! df)) \<and> rows (h ! df) \<noteq> []"
    show e: "fst (standardize h df content_col source) ! df = ?d"
      using a assms by (simp add: standardize_def nth_append split: sum.split)
    show "''Content'' \<in> set (columns (fst (standardize h df content_col source) ! df))"
      unfolding e by (simp add: columns_put_column)
  }
  {
    assume a: "content_col \<notin> set (columns (h ! df)) \<and> ''Content'' \<notin> set (columns (h ! df)) \<and>
          rows (h ! df) \<noteq> []"
    then have "fst (standardize h df content_col source) ! df = ?d"
      using assms by (simp add: standardize_def nth_append split: sum.split)
    moreover have "columns ?d \<noteq> columns (h ! df)"
      using a by (simp add: columns_put_column)
    ultimately show "fst (standardize h df content_col source) ! df \<noteq> h ! df"
      by metis
  }
  {
    assume a: "content_col \<in> set (columns (h ! df))"
    show t: "take (length h) (fst (standardize h df content_col source)) = h"
      using a by (simp add: standardize_def split: sum.split)
    show "fst (standardize h df content_col source) ! df = h ! df"
      using a assms by (simp add: standardize_def nth_append split: sum.split)
  }
qed

theorem standardize_frame_effect_witness:
  "fst (standardize [\<lparr>columns = [''Date'', ''Msg''], rows = [[S ''Dec'', S ''boot'']]\<rparr>] 0 ''Content'' ''mac'') ! 0 =
     \<lparr>columns = [''Date'', ''Msg'', ''Content''], rows = [[S ''Dec'', S ''boot'', S ''Dec boot'']]\<rparr>
   \<and> fst (standardize [\<lparr>columns = [''Date'', ''Content''], rows = [[S ''Dec'', S ''boot'']]\<rparr>] 0 ''Content'' ''mac'') ! 0 =
     \<lparr>columns = [''Date'', ''Content''], rows = [[S ''Dec'', S ''boot'']]\<rparr>"
  using standardize_frame_effect [of 0 "[\<lparr>columns = [''Date'', ''Msg''], rows = [[S ''Dec'', S ''boot'']]\<rparr>]" "''Content''" "''mac''"]
        standardize_frame_effect [of 0 "[\<lparr>columns = [''Date'', ''Content''], rows = [[S ''Dec'', S ''boot'']]\<rparr>]" "''Content''" "''mac''"]
  by (simp add: put_column_def joined_rows_def)

section \<open>Properties of the format parsers\<close>

lemma rx_length:
  "rx ts s gs cur = Some r \<Longrightarrow> length r = length gs + closes ts"
  "rx_alt ts s gs cur ks = Some r \<Longrightarrow> length r = length gs + closes ts"
  by (induction ts s gs cur and ts s gs cur ks arbitrary: r and r rule: rx_rx_alt.induct)
     (auto split: if_splits option.splits)

lemma re_match_length: "re_match ts s = Some r \<Longrightarrow> length r = closes ts"
  using rx_length(1) [of ts s "[]" "[]" r] by (simp add: re_match_def)

lemma match_lines_width: "list_all (\<lambda>r. length r = closes pat) (match_lines pat ls)"
  by (induction ls) (auto split: option.splits dest: re_match_length)

lemma match_lines_length: "length (match_lines pat ls) \<le> length ls"
  by (induction ls) (auto split: option.splits)

lemma match_lines_append: "match_lines pat (xs @ ys) = match_lines pat xs @ match_lines pat ys"
  by (induction xs) (auto split: option.splits)

lemma match_lines_filter:
  "match_lines pat ls =
     map (\<lambda>l. the (re_match pat (strip l))) (filter (\<lambda>l. re_match pat (strip l) \<noteq> None) ls)"
  by (induction ls) (auto split: option.splits)

lemma closes_mac: "closes mac_pattern = 7"
  by (simp add: mac_pattern_def plus_def star_def lit_def)

lemma closes_android: "closes android_pattern = 7"
  by (simp add: android_pattern_def plus_def star_def lit_def exactly_def)

lemma closes_openstack: "closes openstack_pattern = 8"
  by (simp add: openstack_pattern_def plus_def star_def lit_def exactly_def star_lazy_def)

lemma length_mac_columns: "length mac_columns = 7"
  by (simp add: mac_columns_def)

lemma length_android_columns: "length android_columns = 7"
  by (simp add: android_columns_def)

lemma parse_mac_log_eq:
  "parse_mac_log fs p =
     (case text_lines fs p of
        None \<Rightarrow> Inl OSError
      | Some ls \<Rightarrow> Inr \<lparr>columns = mac_columns, rows = map (map S) (match_lines mac_pattern ls)\<rparr>)"
  using match_lines_width [of mac_pattern]
  by (simp add: parse_mac_log_def open_lines_def data_frame_def closes_mac length_mac_columns
      split: option.split)

lemma parse_android_log_eq:
  "parse_android_log fs p =
     (case text_lines fs p of
        None \<Rightarrow> Inl OSError
      | Some ls \<Rightarrow> Inr \<lparr>columns = android_columns, rows = map (map S) (match_lines android_pattern ls)\<rparr>)"
  using match_lines_width [of android_pattern]
  by (simp add: parse_android_log_def open_lines_def data_frame_def closes_android
      length_android_columns split: option.split)


lemma match_lines_skip:
  "re_match pat (strip l) = None \<Longrightarrow> match_lines pat (xs @ l # ys) = match_lines pat (xs @ ys)"
  by (simp add: match_lines_append)

text \<open>
  Claim C7. The console-log and the mobile-log parser never fail on a line: when the file
  can be opened the result is the frame of the groups of the matching lines, in file
  order, every line that does not match being skipped, so that there are at most as many
  records as lines; the only failure is that of opening the file.
\<close>

theorem parsers_skip_unmatched_lines:
  "parse_mac_log fs p =
     (case text_lines fs p of
        None \<Rightarrow> Inl OSError
      | Some ls \<Rightarrow> Inr \<lparr>columns = mac_columns, rows = map (map S) (match_lines mac_pattern ls)\<rparr>)
   \<and> parse_android_log fs p =
     (case text_lines fs p of
        None \<Rightarrow> Inl OSError
      | Some ls \<Rightarrow> Inr \<lparr>columns = android_columns, rows = map (map S) (match_lines android_pattern ls)\<rparr>)
   \<and> match_lines pat ls =
       map (\<lambda>l. the (re_match pat (strip l))) (filter (\<lambda>l. re_match pat (strip l) \<noteq> None) ls)
   \<and> length (match_lines pat ls) \<le> length ls
   \<and> (re_match pat (strip l) = None \<longrightarrow>
        match_lines pat (xs @ l # ys) = match_lines pat (xs @ ys))"
  using parse_mac_log_eq [of fs p] parse_android_log_eq [of fs p] match_lines_filter [of pat ls]
    match_lines_length [of pat ls] match_lines_skip [of pat l xs ys]
  by (intro conjI impI)

lemma sample_mac_rows:
  "match_lines mac_pattern (the (sample_lines ''raw/mac/Mac.log'')) =
     [[''Jan'', ''1'', ''00:00:01'', ''host'', ''kernel'', ''123'', ''boot complete''],
      [''Feb'', ''12'', ''10:00:01'', ''mb'', ''app'', ''7'', ''x y'']]"
  by code_simp

lemma sample_mac_unmatched:
  "re_match mac_pattern (strip (''-- last message repeated 2 times --'' @ nl)) = None"
  by code_simp

lemma sample_android_rows:
  "match_lines android_pattern (the (sample_lines ''raw/android_v1/Android.log'')) =
     [[''01-01'', ''00:00:01.123'', ''100'', ''200'', ''I'', ''TagX'', ''started'']]"
  by code_simp

lemma sample_lines_simps:
  "sample_lines ''raw/mac/Mac.log'' =
        Some [''Jan 1 00:00:01 host kernel[123]: boot complete'' @ nl,
              ''-- last message repeated 2 times --'' @ nl,
              ''Feb 12 10:00:01 mb app[7]: x y'']"
  "sample_lines ''raw/android_v1/Android.log'' =
        Some [''01-01 00:00:01.123 100 200 I TagX: started'' @ nl, nl]"
  "sample_lines ''raw/openssh/SSH.log'' =
        Some [''a b c d'' @ nl,
              ''Dec 10 06:55:46 LabSZ sshd[24200]: reverse mapping  checking'' @ nl]"
  "sample_lines ''raw/nothing/Mac.log'' = None"
  by (simp_all add: sample_lines_def)

theorem parsers_skip_unmatched_lines_witness:
  "parse_mac_log sample_files ''raw/mac/Mac.log'' =
     Inr \<lparr>columns = mac_columns,
          rows = [[S ''Jan'', S ''1'', S ''00:00:01'', S ''host'', S ''kernel'', S ''123'', S ''boot complete''],
                  [S ''Feb'', S ''12'', S ''10:00:01'', S ''mb'', S ''app'', S ''7'', S ''x y'']]\<rparr>
   \<and> parse_android_log sample_files ''raw/android_v1/Android.log'' =
     Inr \<lparr>columns = android_columns,
          rows = [[S ''01-01'', S ''00:00:01.123'', S ''100'', S ''200'', S ''I'', S ''TagX'', S ''started'']]\<rparr>
   \<and> parse_mac_log sample_files ''raw/nothing/Mac.log'' = Inl OSError
   \<and> match_lines mac_pattern
        ([''Jan 1 00:00:01 host kernel[123]: boot complete'' @ nl] @
         (''-- last message repeated 2 times --'' @ nl) # [''Feb 12 10:00:01 mb app[7]: x y'']) =
       match_lines mac_pattern
        ([''Jan 1 00:00:01 host kernel[123]: boot complete'' @ nl] @ [''Feb 12 10:00:01 mb app[7]: x y''])"
  using parsers_skip_unmatched_lines [of sample_files "''raw/mac/Mac.log''" mac_pattern "[]"
          "''-- last message repeated 2 times --'' @ nl"
          "[''Jan 1 00:00:01 host kernel[123]: boot complete'' @ nl]" "[''Feb 12 10:00:01 mb app[7]: x y'']"]
        parsers_skip_unmatched_lines [of sample_files "''raw/android_v1/Android.log''" mac_pattern "[]"]
        parsers_skip_unmatched_lines [of sample_files "''raw/nothing/Mac.log''" mac_pattern "[]"]
        sample_mac_rows sample_android_rows sample_mac_unmatched
  by (simp add: sample_files_def sample_lines_simps)


lemma split_max_length: "length (split_max k s) \<le> Suc k"
  by (induction k arbitrary: s) (auto simp: Let_def)

lemma length_dropWhile_less:
  "r \<noteq> [] \<Longrightarrow> \<not> P (hd r) \<Longrightarrow> length (dropWhile (\<lambda>c. \<not> P c) r) < length r"
  by (cases r) (auto simp: less_Suc_eq_le length_dropWhile_le)

lemma split_max_bound:
  "length s \<le> n \<Longrightarrow> length (split_max k s) = min (Suc k) (length (split_max n s))"
proof (induction k arbitrary: s n)
  case 0
  show ?case
  proof (cases "dropWhile is_space s = []")
    case True
    then show ?thesis by (cases n) (simp_all add: Let_def)
  next
    case False
    then have "s \<noteq> []" by auto
    with 0 obtain m where "n = Suc m" by (cases n) auto
    with False show ?thesis by (simp add: Let_def)
  qed
next
  case (Suc k)
  show ?case
  proof (cases "dropWhile is_space s = []")
    case True
    then show ?thesis by (cases n) (simp_all add: Let_def)
  next
    case False
    let ?r = "dropWhile is_space s"
    let ?rest = "dropWhile (\<lambda>c. \<not> is_space c) ?r"
    from False have "s \<noteq> []" by auto
    with Suc.prems obtain m where n: "n = Suc m" by (cases n) auto
    have "\<not> is_space (hd ?r)" using False hd_dropWhile by blast
    then have "length ?rest < length ?r"
      using False by (intro length_dropWhile_less)
    also have "length ?r \<le> length s" by (rule length_dropWhile_le)
    finally have "length ?rest \<le> m" using Suc.prems n by simp
    then have "length (split_max k ?rest) = min (Suc k) (length (split_max m ?rest))"
      by (rule Suc.IH)
    with False n show ?thesis by (simp add: Let_def)
  qed
qed

lemma split_max_all:
  "length (split_max k s) = min (Suc k) (length (split_all s))"
  unfolding split_all_def by (rule split_max_bound) simp

lemma openssh_rows_filter:
  "openssh_rows ls = filter (\<lambda>parts. length parts = 6) (map (\<lambda>l. split_max 5 (strip l)) ls)"
  by (induction ls) (simp_all add: Let_def)

lemma openssh_rows_append: "openssh_rows (xs @ ys) = openssh_rows xs @ openssh_rows ys"
  by (simp add: openssh_rows_filter)

lemma openssh_rows_all:
  "\<forall>l \<in> set ls. length (split_max 5 (strip l)) = 6 \<Longrightarrow> length (openssh_rows ls) = length ls"
  by (induction ls) (simp_all add: Let_def)

lemma four_tokens_dropped:
  assumes "length (split_all (strip l)) = 4"
  shows "openssh_rows (xs @ l # ys) = openssh_rows (xs @ ys)"
proof -
  have "length (split_max 5 (strip l)) = 4"
    using assms by (simp add: split_max_all)
  then show ?thesis
    by (simp add: openssh_rows_append Let_def)
qed

text \<open>
  Claim C8. The key-path (openssh) parser splits a line into at most six tokens and keeps
  exactly the lines that give six. A line of four tokens is dropped: the rows are those
  of the file without it, and when every other line is kept the number of rows is the
  number of lines minus one.
\<close>

theorem openssh_keeps_six_token_lines:
  "length (split_max 5 s) \<le> 6
   \<and> openssh_rows ls = filter (\<lambda>parts. length parts = 6) (map (\<lambda>l. split_max 5 (strip l)) ls)
   \<and> (length (split_all (strip l)) = 4 \<longrightarrow>
        openssh_rows (xs @ l # ys) = openssh_rows (xs @ ys))
   \<and> (length (split_all (strip l)) = 4 \<and>
        (\<forall>l' \<in> set (xs @ ys). length (split_max 5 (strip l')) = 6) \<longrightarrow>
        length (openssh_rows (xs @ l # ys)) = length (xs @ l # ys) - 1)"
proof (intro conjI impI)
  show "length (split_max 5 s) \<le> 6"
    using split_max_length [of 5 s] by simp
  show "openssh_rows ls = filter (\<lambda>parts. length parts = 6) (map (\<lambda>l. split_max 5 (strip l)) ls)"
    by (rule openssh_rows_filter)
  show "openssh_rows (xs @ l # ys) = openssh_rows (xs @ ys)"
    if "length (split_all (strip l)) = 4"
    using that by (rule four_tokens_dropped)
  show "length (openssh_rows (xs @ l # ys)) = length (xs @ l # ys) - 1"
    if "length (split_all (strip l)) = 4 \<and> (\<forall>l' \<in> set (xs @ ys). length (split_max 5 (strip l')) = 6)"
    using that four_tokens_dropped [of l xs ys] openssh_rows_all [of "xs @ ys"] by simp
qed

lemma sample_ssh_tokens:
  "length (split_all (strip (''a b c d'' @ nl))) = 4"
  "split_max 5 (strip (''Dec 10 06:55:46 LabSZ sshd[24200]: reverse mapping  checking'' @ nl)) =
     [''Dec'', ''10'', ''06:55:46'', ''LabSZ'', ''sshd[24200]:'', ''reverse mapping  checking'']"
  by code_simp+

theorem openssh_keeps_six_token_lines_witness:
  "openssh_rows ([] @ (''a b c d'' @ nl) #
       [''Dec 10 06:55:46 LabSZ sshd[24200]: reverse mapping  checking'' @ nl]) =
     [[''Dec'', ''10'', ''06:55:46'', ''LabSZ'', ''sshd[24200]:'', ''reverse mapping  checking'']]
   \<and> length (openssh_rows ([] @ (''a b c d'' @ nl) #
       [''Dec 10 06:55:46 LabSZ sshd[24200]: reverse mapping  checking'' @ nl])) =
     length ([] @ (''a b c d'' @ nl) #
       [''Dec 10 06:55:46 LabSZ sshd[24200]: reverse mapping  checking'' @ nl]) - 1"
  using openssh_keeps_six_token_lines [of "[]" "[]" "''a b c d'' @ nl" "[]"
          "[''Dec 10 06:55:46 LabSZ sshd[24200]: reverse mapping  checking'' @ nl]"]
        sample_ssh_tokens
  by (simp add: Let_def)

section \<open>Properties of the data frames and of the frames the loader builds\<close>

lemma length_numbered_rows: "length (numbered_rows rs) = length rs"
  by (simp add: numbered_rows_def)

lemma insert_line_id_eq:
  "insert_line_id df =
     (if ''LineId'' \<in> set (columns df) then Inl ValueError
      else Inr \<lparr>columns = ''LineId'' # columns df, rows = numbered_rows (rows df)\<rparr>)"
  by (simp add: insert_line_id_def numbered_rows_def)

lemma map_fst_zip_I:
  "length xs = length rs \<Longrightarrow> map (\<lambda>p. I (fst p)) (zip xs rs) = map I xs"
  by (induction xs rs rule: list_induct2) simp_all

lemma heads_numbered_rows:
  "map (cell_at 0) (numbered_rows rs) = map I [1 .. int (length rs)]"
proof -
  have "map (cell_at 0) (numbered_rows rs) = map (\<lambda>p. I (fst p)) (zip [1 .. int (length rs)] rs)"
    by (simp add: numbered_rows_def cell_at_def case_prod_beta)
  also have "\<dots> = map I [1 .. int (length rs)]"
    by (rule map_fst_zip_I) simp
  finally show ?thesis .
qed

lemma int_cells_I: "int_cells (map I xs) = Some xs"
  by (induction xs) simp_all

lemma line_ids_heads:
  "columns df = ''LineId'' # cs \<Longrightarrow> map (cell_at 0) (rows df) = map I xs \<Longrightarrow>
   line_ids df = Some xs"
  by (simp add: line_ids_def column_def int_cells_I)

lemma line_ids_numbered:
  "line_ids \<lparr>columns = ''LineId'' # cs, rows = numbered_rows rs\<rparr> = Some [1 .. int (length rs)]"
  by (rule line_ids_heads [where cs = cs]) (simp_all add: heads_numbered_rows)

lemma index_of_append:
  "x \<notin> set pre \<Longrightarrow> index_of x (pre @ x # ys) = Some (length pre)"
  by (induction pre) auto

lemma indices_of_suffix:
  "distinct (pre @ ns) \<Longrightarrow> indices_of ns (pre @ ns) = Inr [length pre ..< length pre + length ns]"
proof (induction ns arbitrary: pre)
  case Nil
  then show ?case by simp
next
  case (Cons n ns)
  from Cons.prems have "n \<notin> set pre" by auto
  then have i: "index_of n (pre @ n # ns) = Some (length pre)"
    by (rule index_of_append)
  from Cons.prems have "distinct ((pre @ [n]) @ ns)" by auto
  then have "indices_of ns ((pre @ [n]) @ ns) =
      Inr [length (pre @ [n]) ..< length (pre @ [n]) + length ns]"
    by (rule Cons.IH)
  then have "indices_of ns (pre @ n # ns) = Inr [Suc (length pre) ..< Suc (length pre + length ns)]"
    by (simp del: upt_Suc)
  moreover have "[length pre ..< Suc (length pre + length ns)] =
      length pre # [Suc (length pre) ..< Suc (length pre + length ns)]"
    by (rule upt_conv_Cons) simp
  ultimately show ?case
    using i by (simp del: upt_Suc)
qed

lemma indices_of_self: "distinct cols \<Longrightarrow> indices_of cols cols = Inr [0 ..< length cols]"
  using indices_of_suffix [of "[]" cols] by simp

lemma cells_of_row: "map (\<lambda>j. cell_at j r) [0 ..< length r] = r"
proof -
  have "map (\<lambda>j. cell_at j r) [0 ..< length r] = map (\<lambda>j. r ! j) [0 ..< length r]"
    by (rule map_cong) (simp_all add: cell_at_def)
  then show ?thesis by (simp add: map_nth)
qed

lemma select_self:
  assumes "distinct cols" and "list_all (\<lambda>r. length r = length cols) rs"
  shows "select cols \<lparr>columns = cols, rows = rs\<rparr> = Inr \<lparr>columns = cols, rows = rs\<rparr>"
proof -
  have "map (\<lambda>r. map (\<lambda>j. cell_at j r) [0 ..< length cols]) rs = map (\<lambda>r. r) rs"
  proof (rule map_cong [OF refl])
    fix r assume "r \<in> set rs"
    with assms(2) have "length r = length cols" by (simp add: list_all_iff)
    then show "map (\<lambda>j. cell_at j r) [0 ..< length cols] = r"
      using cells_of_row [of r] by simp
  qed
  then show ?thesis
    using assms(1) by (simp add: select_def indices_of_self)
qed

lemma numbered_rows_width:
  "list_all (\<lambda>r. length r = n) rs \<Longrightarrow> m = Suc n \<Longrightarrow>
   list_all (\<lambda>r. length r = m) (numbered_rows rs)"
  by (auto simp: numbered_rows_def list_all_iff dest: set_zip_rightD)

lemma strings_width:
  "list_all (\<lambda>r. length r = n) rs \<Longrightarrow> list_all (\<lambda>r. length r = n) (map (map S) rs)"
  by (simp add: list_all_iff)

lemma mac_columns_fresh: "distinct (''LineId'' # mac_columns)"
  by (simp add: mac_columns_def)

lemma android_columns_fresh: "distinct (''LineId'' # android_columns)"
  by (simp add: android_columns_def)

lemma mac_frame_eq:
  "mac_frame fs dir =
     (case find_file fs dir mac_file_pattern of
        Inl e \<Rightarrow> Inl e
      | Inr p \<Rightarrow>
          (case text_lines fs p of
             None \<Rightarrow> Inl OSError
           | Some ls \<Rightarrow>
               Inr \<lparr>columns = ''LineId'' # mac_columns,
                    rows = numbered_rows (map (map S) (match_lines mac_pattern ls))\<rparr>))"
proof -
  have w: "list_all (\<lambda>r. length r = length (''LineId'' # mac_columns))
             (numbered_rows (map (map S) (match_lines mac_pattern ls)))" for ls
  proof (rule numbered_rows_width [where n = 7])
    show "list_all (\<lambda>r. length r = 7) (map (map S) (match_lines mac_pattern ls))"
      using match_lines_width [of mac_pattern ls] by (simp add: closes_mac strings_width)
    show "length (''LineId'' # mac_columns) = Suc 7"
      by (simp add: length_mac_columns)
  qed
  have f: "''LineId'' \<notin> set mac_columns"
    using mac_columns_fresh by simp
  show ?thesis
  proof (cases "find_file fs dir mac_file_pattern")
    case (Inl e)
    then show ?thesis by (simp add: mac_frame_def)
  next
    case (Inr p)
    show ?thesis
    proof (cases "text_lines fs p")
      case None
      with Inr show ?thesis by (simp add: mac_frame_def parse_mac_log_eq)
    next
      case (Some ls)
      with Inr f show ?thesis
        by (simp add: mac_frame_def parse_mac_log_eq insert_line_id_eq
            select_self [OF mac_columns_fresh w])
    qed
  qed
qed

lemma android_frame_eq:
  "android_frame fs dir =
     (case find_file fs dir android_file_pattern of
        Inl e \<Rightarrow> Inl e
      | Inr p \<Rightarrow>
          (case text_lines fs p of
             None \<Rightarrow> Inl OSError
           | Some ls \<Rightarrow>
               Inr \<lparr>columns = ''LineId'' # android_columns,
                    rows = numbered_rows (map (map S) (match_lines android_pattern ls))\<rparr>))"
proof -
  have w: "list_all (\<lambda>r. length r = length (''LineId'' # android_columns))
             (numbered_rows (map (map S) (match_lines android_pattern ls)))" for ls
  proof (rule numbered_rows_width [where n = 7])
    show "list_all (\<lambda>r. length r = 7) (map (map S) (match_lines android_pattern ls))"
      using match_lines_width [of android_pattern ls] by (simp add: closes_android strings_width)
    show "length (''LineId'' # android_columns) = Suc 7"
      by (simp add: length_android_columns)
  qed
  have f: "''LineId'' \<notin> set android_columns"
    using android_columns_fresh by simp
  show ?thesis
  proof (cases "find_file fs dir android_file_pattern")
    case (Inl e)
    then show ?thesis by (simp add: android_frame_def)
  next
    case (Inr p)
    show ?thesis
    proof (cases "text_lines fs p")
      case None
      with Inr show ?thesis by (simp add: android_frame_def parse_android_log_eq)
    next
      case (Some ls)
      with Inr f show ?thesis
        by (simp add: android_frame_def parse_android_log_eq insert_line_id_eq
            select_self [OF android_columns_fresh w])
    qed
  qed
qed

lemma openssh_rows_width: "list_all (\<lambda>r. length r = 6) (openssh_rows ls)"
  by (simp add: openssh_rows_filter list_all_iff)

lemma openssh_frame_eq:
  "openssh_frame fs dir =
     (case find_file fs dir ssh_file_pattern of
        Inl e \<Rightarrow> Inl e
      | Inr p \<Rightarrow>
          (case text_lines fs p of
             None \<Rightarrow> Inl OSError
           | Some ls \<Rightarrow>
               Inr \<lparr>columns = ''LineId'' # openssh_columns,
                    rows = numbered_rows (map (map S) (openssh_rows ls))\<rparr>))"
proof -
  have l: "length openssh_columns = 6" and f: "''LineId'' \<notin> set openssh_columns"
    by (simp_all add: openssh_columns_def)
  show ?thesis
  proof (cases "find_file fs dir ssh_file_pattern")
    case (Inl e)
    then show ?thesis by (simp add: openssh_frame_def)
  next
    case (Inr p)
    show ?thesis
    proof (cases "text_lines fs p")
      case None
      with Inr show ?thesis by (simp add: openssh_frame_def open_lines_def)
    next
      case (Some ls)
      with Inr f openssh_rows_width [of ls] show ?thesis
        by (simp add: openssh_frame_def open_lines_def data_frame_def l insert_line_id_eq)
    qed
  qed
qed

lemma load_openstack_logs_eq:
  "load_openstack_logs fs paths =
     (case openstack_rows fs paths of
        Inl e \<Rightarrow> Inl e
      | Inr rs \<Rightarrow>
          Inr \<lparr>columns = ''LineId'' # (if rs = [] then [] else openstack_columns),
               rows = numbered_rows (map (map S) rs)\<rparr>)"
proof -
  have "''LineId'' \<notin> set openstack_columns"
    by (simp add: openstack_columns_def)
  then show ?thesis
    by (cases "openstack_rows fs paths")
       (simp_all add: load_openstack_logs_def data_frame_dicts_def insert_line_id_eq
          numbered_rows_def)
qed

lemma bgl_contents_length: "bgl_contents ls = Inr cs \<Longrightarrow> length cs = length ls"
  by (induction ls arbitrary: cs) (auto simp: Let_def split: if_splits sum.splits)

lemma rows_put_column_length:
  "length (rows (put_column name vals df)) = min (length vals) (length (rows df))"
  by (cases "index_of name (columns df)") (simp_all add: put_column_def)

lemma set_item_list_rows:
  "set_item_list name vals df = Inr df' \<Longrightarrow> length (rows df') = length vals"
  by (auto simp: set_item_list_def rows_put_column_length split: if_splits)

lemma set_item_list_mismatch:
  "rows df \<noteq> [] \<Longrightarrow> length vals \<noteq> length (rows df) \<Longrightarrow>
   set_item_list name vals df = Inl ValueError"
  by (simp add: set_item_list_def)

lemma bgl_attach_line_ids:
  assumes "bgl_attach df ls = Inr res"
  shows "line_ids res = Some [1 .. int (length ls)]" and "length (rows res) = length ls"
proof -
  from assms obtain cs where cs: "bgl_contents ls = Inr cs"
    by (cases "bgl_contents ls") (simp_all add: bgl_attach_def)
  with assms obtain df' where df': "set_item_list ''Content'' (map S cs) df = Inr df'"
    by (cases "set_item_list ''Content'' (map S cs) df") (simp_all add: bgl_attach_def)
  from df' have n: "length (rows df') = length ls"
    using set_item_list_rows [OF df'] bgl_contents_length [OF cs] by simp
  from assms cs df' have "insert_line_id df' = Inr res"
    by (simp add: bgl_attach_def)
  then have res: "res = \<lparr>columns = ''LineId'' # columns df', rows = numbered_rows (rows df')\<rparr>"
    by (simp add: insert_line_id_eq split: if_splits)
  show "line_ids res = Some [1 .. int (length ls)]"
    unfolding res using line_ids_numbered [of "columns df'" "rows df'"] n by simp
  show "length (rows res) = length ls"
    unfolding res using n by (simp add: length_numbered_rows)
qed

lemma bgl_attach_mismatch:
  assumes "rows df \<noteq> []" and "length (rows df) \<noteq> length ls"
  shows "bgl_attach df ls = Inl IndexError \<or> bgl_attach df ls = Inl ValueError"
proof (cases "bgl_contents ls")
  case (Inl e)
  have "e = IndexError" if "bgl_contents xs = Inl e" for xs
    using that by (induction xs) (auto simp: Let_def split: if_splits sum.splits)
  with Inl show ?thesis by (simp add: bgl_attach_def)
next
  case (Inr cs)
  then have "length (map S cs) \<noteq> length (rows df)"
    using bgl_contents_length [OF Inr] assms(2) by simp
  with assms(1) have "set_item_list ''Content'' (map S cs) df = Inl ValueError"
    by (intro set_item_list_mismatch)
  with Inr show ?thesis by (simp add: bgl_attach_def)
qed

lemma put_column_keeps_heads:
  assumes c: "columns df = ''LineId'' # cs"
    and h: "map (cell_at 0) (rows df) = map I xs"
    and n: "name \<noteq> ''LineId''"
    and l: "length vals = length (rows df)"
  shows "\<exists>cs'. columns (put_column name vals df) = ''LineId'' # cs'"
    and "map (cell_at 0) (rows (put_column name vals df)) = map I xs"
    and "length (rows (put_column name vals df)) = length (rows df)"
proof -
  have ne: "r \<noteq> []" if "r \<in> set (rows df)" for r
  proof
    assume "r = []"
    with that have "NaN \<in> set (map (cell_at 0) (rows df))"
      by (force simp: cell_at_def)
    with h show False by auto
  qed
  show "\<exists>cs'. columns (put_column name vals df) = ''LineId'' # cs'"
    using c n by (cases "index_of name cs") (simp_all add: put_column_def)
  show "length (rows (put_column name vals df)) = length (rows df)"
    using l by (simp add: rows_put_column_length)
  have z: "map snd (zip vals (rows df)) = rows df"
    using l by (simp add: map_snd_zip)
  show "map (cell_at 0) (rows (put_column name vals df)) = map I xs"
  proof (cases "index_of name cs")
    case None
    have "map (cell_at 0) (rows (put_column name vals df)) =
          map (\<lambda>p. cell_at 0 (snd p @ [fst p])) (zip vals (rows df))"
      using None c n by (simp add: put_column_def case_prod_beta)
    also have "\<dots> = map (\<lambda>p. cell_at 0 (snd p)) (zip vals (rows df))"
    proof (rule map_cong [OF refl])
      fix p assume "p \<in> set (zip vals (rows df))"
      then have "snd p \<in> set (rows df)" by (metis prod.collapse set_zip_rightD)
      then have "snd p \<noteq> []" by (rule ne)
      then show "cell_at 0 (snd p @ [fst p]) = cell_at 0 (snd p)"
        by (cases "snd p") (simp_all add: cell_at_def)
    qed
    also have "\<dots> = map (cell_at 0) (map snd (zip vals (rows df)))" by simp
    finally show ?thesis using z h by simp
  next
    case (Some i)
    have "map (cell_at 0) (rows (put_column name vals df)) =
          map (\<lambda>p. cell_at 0 ((snd p)[Suc i := fst p])) (zip vals (rows df))"
      using Some c n by (simp add: put_column_def case_prod_beta)
    also have "\<dots> = map (\<lambda>p. cell_at 0 (snd p)) (zip vals (rows df))"
      by (rule map_cong [OF refl]) (simp add: cell_at_def)
    also have "\<dots> = map (cell_at 0) (map snd (zip vals (rows df)))" by simp
    finally show ?thesis using z h by simp
  qed
qed

lemma set_item_scalar_keeps_heads:
  assumes "columns df = ''LineId'' # cs"
    and "map (cell_at 0) (rows df) = map I xs"
    and "name \<noteq> ''LineId''"
  shows "\<exists>cs'. columns (set_item_scalar name v df) = ''LineId'' # cs'"
    and "map (cell_at 0) (rows (set_item_scalar name v df)) = map I xs"
    and "length (rows (set_item_scalar name v df)) = length (rows df)"
  unfolding set_item_scalar_def
  using put_column_keeps_heads [OF assms, of "replicate (length (rows df)) v"] by simp_all

lemma standardize_frame_line_ids:
  assumes "standardize_frame d content_col source = Inr res"
  shows "line_ids res = Some [1 .. int (length (rows d))]"
proof -
  from assms obtain sel where sel: "select [content_col] d = Inr sel"
    by (cases "select [content_col] d") (simp_all add: standardize_frame_def)
  then have n: "length (rows sel) = length (rows d)"
    by (auto simp: select_single split: if_splits)
  let ?r = "rename content_col ''Content'' sel"
  have nr: "length (rows ?r) = length (rows d)"
    using n by (simp add: rename_def)
  from assms sel obtain numbered where num: "insert_line_id ?r = Inr numbered"
    and res: "res = set_item_scalar ''Source'' (S source)
                     (set_item_scalar ''EventTemplate'' PyNone
                       (set_item_scalar ''EventId'' PyNone numbered))"
    by (cases "insert_line_id ?r") (simp_all add: standardize_frame_def)
  from num have nd: "numbered = \<lparr>columns = ''LineId'' # columns ?r, rows = numbered_rows (rows ?r)\<rparr>"
    by (simp add: insert_line_id_eq split: if_splits)
  have c0: "columns numbered = ''LineId'' # columns ?r"
    and h0: "map (cell_at 0) (rows numbered) = map I [1 .. int (length (rows d))]"
    unfolding nd using heads_numbered_rows [of "rows ?r"] nr by simp_all
  let ?a = "set_item_scalar ''EventId'' PyNone numbered"
  obtain ca where ca: "columns ?a = ''LineId'' # ca"
    using set_item_scalar_keeps_heads(1) [OF c0 h0, of "''EventId''" PyNone] by auto
  have ha: "map (cell_at 0) (rows ?a) = map I [1 .. int (length (rows d))]"
    using set_item_scalar_keeps_heads(2) [OF c0 h0, of "''EventId''" PyNone] by simp
  let ?b = "set_item_scalar ''EventTemplate'' PyNone ?a"
  obtain cb where cb: "columns ?b = ''LineId'' # cb"
    using set_item_scalar_keeps_heads(1) [OF ca ha, of "''EventTemplate''" PyNone] by auto
  have hb: "map (cell_at 0) (rows ?b) = map I [1 .. int (length (rows d))]"
    using set_item_scalar_keeps_heads(2) [OF ca ha, of "''EventTemplate''" PyNone] by simp
  obtain cc where cc: "columns res = ''LineId'' # cc"
    unfolding res
    using set_item_scalar_keeps_heads(1) [OF cb hb, of "''Source''" "S source"] by auto
  have hc: "map (cell_at 0) (rows res) = map I [1 .. int (length (rows d))]"
    unfolding res
    using set_item_scalar_keeps_heads(2) [OF cb hb, of "''Source''" "S source"] by simp
  from cc hc show ?thesis by (rule line_ids_heads)
qed

lemma standardize_line_ids:
  assumes "r < length h" and "snd (standardize h r content_col source) = Inr res"
  shows "line_ids (fst (standardize h r content_col source) ! res) =
           Some [1 .. int (length (rows (h ! r)))]"
proof -
  define h1 where "h1 = (if content_col \<notin> set (columns (h ! r))
             then h[r := put_column ''Content'' (joined_rows (h ! r)) (h ! r)]
             else h @ [h ! r])"
  define r1 where "r1 = (if content_col \<notin> set (columns (h ! r)) then r else length h)"
  have raised: "\<not> (content_col \<notin> set (columns (h ! r)) \<and> rows (h ! r) = [] \<and>
         2 \<le> length (columns (h ! r)))"
    using assms(2) by (auto simp: standardize_def)
  have "standardize h r content_col source =
        (let (h1, df1) =
               (if content_col \<notin> set (columns (h ! r))
                then (h[r := put_column ''Content'' (joined_rows (h ! r)) (h ! r)], r)
                else (h @ [h ! r], length h))
         in case standardize_frame (h1 ! df1) content_col source of
              Inl e \<Rightarrow> (h1, Inl e)
            | Inr res \<Rightarrow> (h1 @ [res], Inr (length h1)))"
    unfolding standardize_def by (rule if_not_P [OF raised])
  then have st: "standardize h r content_col source =
        (case standardize_frame (h1 ! r1) content_col source of
           Inl e \<Rightarrow> (h1, Inl e)
         | Inr f \<Rightarrow> (h1 @ [f], Inr (length h1)))"
    unfolding h1_def r1_def by (simp split: sum.split)
  have n: "length (rows (h1 ! r1)) = length (rows (h ! r))"
    using assms(1)
    by (simp add: h1_def r1_def rows_put_column_length joined_rows_def)
  from assms(2) st obtain f where f: "standardize_frame (h1 ! r1) content_col source = Inr f"
    by (cases "standardize_frame (h1 ! r1) content_col source") simp_all
  with st assms(2) have "res = length h1" and "fst (standardize h r content_col source) = h1 @ [f]"
    by simp_all
  then have "fst (standardize h r content_col source) ! res = f" by simp
  with standardize_frame_line_ids [OF f] n show ?thesis by simp
qed

section \<open>Properties of the dataset loader\<close>

text \<open>Concrete runs on the sample files, evaluated once.\<close>

lemma sample_find:
  "find_file sample_files ''raw/mac'' mac_file_pattern = Inr ''raw/mac/Mac.log''"
  "find_file sample_files ''raw/bgl'' bgl_file_pattern = Inr ''raw/bgl/BGL.log''"
  "find_file sample_files ''raw/bgl_blank'' bgl_file_pattern = Inr ''raw/bgl_blank/BGL.log''"
  by code_simp+

lemma sample_mac_frame:
  "mac_frame sample_files ''raw/mac'' =
     Inr \<lparr>columns = [''LineId'', ''Month'', ''Date'', ''Time'', ''User'', ''Component'', ''PID'', ''Content''],
          rows = [[I 1, S ''Jan'', S ''1'', S ''00:00:01'', S ''host'', S ''kernel'', S ''123'', S ''boot complete''],
                  [I 2, S ''Feb'', S ''12'', S ''10:00:01'', S ''mb'', S ''app'', S ''7'', S ''x y'']]\<rparr>"
  by code_simp

lemma sample_bgl_frame:
  "bgl_frame sample_files ''raw/bgl'' =
     Inr \<lparr>columns = ''LineId'' # bgl_columns @ [''Content''],
          rows = [I 1 # sample_structured_row @ [S ''cache parity error'']]\<rparr>"
  by code_simp

lemma sample_bgl_blank_pass:
  "structured_pass sample_files ''raw/bgl_blank/BGL.log'' =
     Inr \<lparr>columns = bgl_columns, rows = [sample_structured_row]\<rparr>"
  by code_simp

lemma sample_files_simps:
  "csv_cells sample_files = sample_csv" "text_lines sample_files = sample_lines"
  by (simp_all add: sample_files_def)

lemma load_dataset_to_sqlite_eq:
  "load_dataset_to_sqlite fs ins db name dir =
     (case source_frame fs name dir of
        None \<Rightarrow> (db, NoParser)
      | Some (Inl e) \<Rightarrow> (db, Failed e)
      | Some (Inr df) \<Rightarrow>
          (case ins df of
             None \<Rightarrow> (db(''logs_'' @ name \<mapsto> df), Loaded (length (rows df)))
           | Some e \<Rightarrow> (db(''logs_'' @ name \<mapsto> df\<lparr>rows := []\<rparr>), Failed e)))"
  by (simp add: load_dataset_to_sqlite_def source_frame_def store_frame_def to_sql_def Let_def
      split: sum.split option.split)

lemma split_max_Nil: "split_max k [] = []"
  by (cases k) simp_all

lemma blank_line_raises:
  "\<exists>l \<in> set ls. strip l = [] \<Longrightarrow> bgl_contents ls = Inl IndexError"
proof (induction ls)
  case Nil
  then show ?case by simp
next
  case (Cons l ls)
  show ?case
  proof (cases "split_max 9 (strip l) = []")
    case True
    then show ?thesis by simp
  next
    case False
    then have "strip l \<noteq> []" by (auto simp: split_max_Nil)
    with Cons.prems have "\<exists>l \<in> set ls. strip l = []" by auto
    then have "bgl_contents ls = Inl IndexError" by (rule Cons.IH)
    with False show ?thesis by simp
  qed
qed

lemma fewer_rows_blank_line:
  "length (filter (\<lambda>l. strip l \<noteq> []) ls) \<noteq> length ls \<Longrightarrow> \<exists>l \<in> set ls. strip l = []"
  by (metis (mono_tags, lifting) filter_True)

lemma structured_pass_rows:
  assumes "structured_pass fs p = Inr df" and "text_lines fs p = Some ls"
  shows "length (rows df) = length (filter (\<lambda>l. strip l \<noteq> []) ls)"
  using assms by (auto simp: structured_pass_def open_lines_def split: sum.splits)

lemma bgl_frame_attach:
  "find_file fs dir bgl_file_pattern = Inr p \<Longrightarrow> structured_pass fs p = Inr df \<Longrightarrow>
   text_lines fs p = Some ls \<Longrightarrow> bgl_frame fs dir = bgl_attach df ls"
  by (simp add: bgl_frame_def open_lines_def)

lemma bgl_frame_line_ids:
  assumes "bgl_frame fs dir = Inr df"
  shows "line_ids df = Some [1 .. int (length (rows df))]"
    and "\<exists>p ls. find_file fs dir bgl_file_pattern = Inr p \<and> text_lines fs p = Some ls \<and>
           length (rows df) = length ls"
proof -
  from assms obtain p where p: "find_file fs dir bgl_file_pattern = Inr p"
    by (cases "find_file fs dir bgl_file_pattern") (simp_all add: bgl_frame_def)
  with assms obtain sp where sp: "structured_pass fs p = Inr sp"
    by (cases "structured_pass fs p") (simp_all add: bgl_frame_def)
  with assms p obtain ls where ls: "text_lines fs p = Some ls"
    by (cases "text_lines fs p") (simp_all add: bgl_frame_def open_lines_def)
  with assms p sp have a: "bgl_attach sp ls = Inr df"
    by (simp add: bgl_frame_def open_lines_def)
  show "line_ids df = Some [1 .. int (length (rows df))]"
    using bgl_attach_line_ids [OF a] by simp
  show "\<exists>p ls. find_file fs dir bgl_file_pattern = Inr p \<and> text_lines fs p = Some ls \<and>
           length (rows df) = length ls"
    using p ls bgl_attach_line_ids(2) [OF a] by blast
qed

lemma numbered_frame_line_ids:
  "df = \<lparr>columns = ''LineId'' # cs, rows = numbered_rows rs\<rparr> \<Longrightarrow>
   line_ids df = Some [1 .. int (length (rows df))]"
  by (simp add: line_ids_numbered length_numbered_rows)

lemma source_frame_line_ids:
  assumes "source_frame fs name dir = Some (Inr df)"
  shows "line_ids df = Some [1 .. int (length (rows df))]"
proof -
  consider (bgl) "bgl_frame fs dir = Inr df" | (ssh) "openssh_frame fs dir = Inr df"
    | (stack) "openstack_frame fs dir = Inr df" | (mac) "mac_frame fs dir = Inr df"
    | (android) "android_frame fs dir = Inr df"
    using assms by (auto simp: source_frame_def split: if_splits)
  then show ?thesis
  proof cases
    case bgl
    then show ?thesis by (rule bgl_frame_line_ids(1))
  next
    case ssh
    then show ?thesis
      by (auto simp: openssh_frame_eq split: sum.splits option.splits
          intro: numbered_frame_line_ids)
  next
    case stack
    then show ?thesis
      by (auto simp: openstack_frame_def load_openstack_logs_eq split: sum.splits
          intro: numbered_frame_line_ids)
  next
    case mac
    then show ?thesis
      by (auto simp: mac_frame_eq split: sum.splits option.splits
          intro: numbered_frame_line_ids)
  next
    case android
    then show ?thesis
      by (auto simp: android_frame_eq split: sum.splits option.splits
          intro: numbered_frame_line_ids)
  qed
qed

lemma loaded_table:
  assumes "snd (load_dataset_to_sqlite fs ins db name dir) = Loaded n"
  shows "\<exists>df. source_frame fs name dir = Some (Inr df) \<and> ins df = None \<and> length (rows df) = n"
  using assms
  by (auto simp: load_dataset_to_sqlite_eq split: option.splits sum.splits)

text \<open>
  Claim C2. Every table the loader writes has a \<open>LineId\<close> column holding exactly
  \<open>1, ..., N\<close> in row order, \<open>N\<close> being the number of rows. For the distributed-service,
  key-path, console and mobile formats the frame is the list of the parsed lines, in input
  order, each behind its 1-based position, so \<open>N\<close> is the number of lines that were not
  skipped; for the fixed-width format a frame that is built has one row per line of the
  file; the normalizer numbers the rows of its input from 1.
\<close>

theorem line_ids_contiguous:
  "(snd (load_dataset_to_sqlite fs ins db name dir) = Loaded n \<longrightarrow>
      (\<exists>df. fst (load_dataset_to_sqlite fs ins db name dir) (''logs_'' @ name) = Some df \<and>
            length (rows df) = n \<and> line_ids df = Some [1 .. int n]))
   \<and> load_openstack_logs fs paths =
       (case openstack_rows fs paths of
          Inl e \<Rightarrow> Inl e
        | Inr rs \<Rightarrow>
            Inr \<lparr>columns = ''LineId'' # (if rs = [] then [] else openstack_columns),
                 rows = numbered_rows (map (map S) rs)\<rparr>)
   \<and> openssh_frame fs dir =
       (case find_file fs dir ssh_file_pattern of
          Inl e \<Rightarrow> Inl e
        | Inr p \<Rightarrow>
            (case text_lines fs p of
               None \<Rightarrow> Inl OSError
             | Some ls \<Rightarrow>
                 Inr \<lparr>columns = ''LineId'' # openssh_columns,
                      rows = numbered_rows (map (map S) (openssh_rows ls))\<rparr>))
   \<and> mac_frame fs dir =
       (case find_file fs dir mac_file_pattern of
          Inl e \<Rightarrow> Inl e
        | Inr p \<Rightarrow>
            (case text_lines fs p of
               None \<Rightarrow> Inl OSError
             | Some ls \<Rightarrow>
                 Inr \<lparr>columns = ''LineId'' # mac_columns,
                      rows = numbered_rows (map (map S) (match_lines mac_pattern ls))\<rparr>))
   \<and> android_frame fs dir =
       (case find_file fs dir android_file_pattern of
          Inl e \<Rightarrow> Inl e
        | Inr p \<Rightarrow>
            (case text_lines fs p of
               None \<Rightarrow> Inl OSError
             | Some ls \<Rightarrow>
                 Inr \<lparr>columns = ''LineId'' # android_columns,
                      rows = numbered_rows (map (map S) (match_lines android_pattern ls))\<rparr>))
   \<and> line_ids \<lparr>columns = ''LineId'' # cs, rows = numbered_rows rs\<rparr> = Some [1 .. int (length rs)]
   \<and> (bgl_frame fs dir = Inr df \<longrightarrow>
        line_ids df = Some [1 .. int (length (rows df))] \<and>
        (\<exists>p ls. find_file fs dir bgl_file_pattern = Inr p \<and> text_lines fs p = Some ls \<and>
                length (rows df) = length ls))
   \<and> (r < length h \<and> snd (standardize h r content_col source) = Inr res \<longrightarrow>
        line_ids (fst (standardize h r content_col source) ! res) =
          Some [1 .. int (length (rows (h ! r)))])"
proof (intro conjI impI)
  show "\<exists>df. fst (load_dataset_to_sqlite fs ins db name dir) (''logs_'' @ name) = Some df \<and>
            length (rows df) = n \<and> line_ids df = Some [1 .. int n]"
    if "snd (load_dataset_to_sqlite fs ins db name dir) = Loaded n"
  proof -
    from loaded_table [OF that] obtain df
      where df: "source_frame fs name dir = Some (Inr df)" and ok: "ins df = None"
        and n: "length (rows df) = n"
      by blast
    from df ok have "fst (load_dataset_to_sqlite fs ins db name dir) (''logs_'' @ name) = Some df"
      by (simp add: load_dataset_to_sqlite_eq)
    moreover from source_frame_line_ids [OF df] n have "line_ids df = Some [1 .. int n]"
      by simp
    ultimately show ?thesis using n by blast
  qed
  show "line_ids df = Some [1 .. int (length (rows df))]" if "bgl_frame fs dir = Inr df"
    using that by (rule bgl_frame_line_ids(1))
  show "\<exists>p ls. find_file fs dir bgl_file_pattern = Inr p \<and> text_lines fs p = Some ls \<and>
                length (rows df) = length ls" if "bgl_frame fs dir = Inr df"
    using that by (rule bgl_frame_line_ids(2))
  show "line_ids (fst (standardize h r content_col source) ! res) =
          Some [1 .. int (length (rows (h ! r)))]"
    if "r < length h \<and> snd (standardize h r content_col source) = Inr res"
    using that standardize_line_ids [of r h content_col source res] by simp
qed (rule load_openstack_logs_eq openssh_frame_eq mac_frame_eq android_frame_eq line_ids_numbered)+

text \<open>
  Claim C6. Loading a source again on the same files gives the same database and the same
  outcome as loading it once. A successful load sets the table of the source to a frame
  that depends on the files only, whatever the database held before. Whatever the
  outcome, a load changes at most the table of the source, and to a frame that does not
  depend on what the database held: the table is replaced, nothing is appended or merged.
\<close>

theorem ingestion_replaces_table:
  "load_dataset_to_sqlite fs ins (fst (load_dataset_to_sqlite fs ins db name dir)) name dir =
     load_dataset_to_sqlite fs ins db name dir
   \<and> (snd (load_dataset_to_sqlite fs ins db name dir) = Loaded n \<longrightarrow>
        (\<exists>df. length (rows df) = n \<and>
              (\<forall>db'. load_dataset_to_sqlite fs ins db' name dir =
                       (db'(''logs_'' @ name \<mapsto> df), Loaded n))))
   \<and> (\<exists>tbl out. \<forall>db'. load_dataset_to_sqlite fs ins db' name dir =
        ((case tbl of None \<Rightarrow> db' | Some df \<Rightarrow> db'(''logs_'' @ name \<mapsto> df)), out))"
proof (intro conjI impI)
  show "load_dataset_to_sqlite fs ins (fst (load_dataset_to_sqlite fs ins db name dir)) name dir =
     load_dataset_to_sqlite fs ins db name dir"
    by (simp add: load_dataset_to_sqlite_eq split: option.split sum.split)
  show "\<exists>df. length (rows df) = n \<and>
              (\<forall>db'. load_dataset_to_sqlite fs ins db' name dir =
                       (db'(''logs_'' @ name \<mapsto> df), Loaded n))"
    if "snd (load_dataset_to_sqlite fs ins db name dir) = Loaded n"
  proof -
    from loaded_table [OF that] obtain df
      where df: "source_frame fs name dir = Some (Inr df)" and ok: "ins df = None"
        and n: "length (rows df) = n"
      by blast
    then have "\<forall>db'. load_dataset_to_sqlite fs ins db' name dir =
        (db'(''logs_'' @ name \<mapsto> df), Loaded n)"
      by (simp add: load_dataset_to_sqlite_eq)
    with n show ?thesis by blast
  qed
  show "\<exists>tbl out. \<forall>db'. load_dataset_to_sqlite fs ins db' name dir =
        ((case tbl of None \<Rightarrow> db' | Some df \<Rightarrow> db'(''logs_'' @ name \<mapsto> df)), out)"
  proof (cases "source_frame fs name dir")
    case None
    then have "\<forall>db'. load_dataset_to_sqlite fs ins db' name dir =
        ((case None of None \<Rightarrow> db' | Some df \<Rightarrow> db'(''logs_'' @ name \<mapsto> df)), NoParser)"
      by (simp add: load_dataset_to_sqlite_eq)
    then show ?thesis by blast
  next
    case (Some r)
    show ?thesis
    proof (cases r)
      case (Inl e)
      with Some have "\<forall>db'. load_dataset_to_sqlite fs ins db' name dir =
          ((case None of None \<Rightarrow> db' | Some df \<Rightarrow> db'(''logs_'' @ name \<mapsto> df)), Failed e)"
        by (simp add: load_dataset_to_sqlite_eq)
      then show ?thesis by blast
    next
      case (Inr df)
      show ?thesis
      proof (cases "ins df")
        case None
        with Some Inr have "\<forall>db'. load_dataset_to_sqlite fs ins db' name dir =
            ((case Some df of None \<Rightarrow> db' | Some df \<Rightarrow> db'(''logs_'' @ name \<mapsto> df)),
             Loaded (length (rows df)))"
          by (simp add: load_dataset_to_sqlite_eq)
        then show ?thesis by blast
      next
        case (Some e)
        with \<open>source_frame fs name dir = Some r\<close> Inr
        have "\<forall>db'. load_dataset_to_sqlite fs ins db' name dir =
            ((case Some (df\<lparr>rows := []\<rparr>) of None \<Rightarrow> db'
              | Some df \<Rightarrow> db'(''logs_'' @ name \<mapsto> df)), Failed e)"
          by (simp add: load_dataset_to_sqlite_eq)
        then show ?thesis by blast
      qed
    qed
  qed
qed

text \<open>
  Claim C4. For the fixed-width (BGL) format the content pass has one entry per line of
  the file. Whenever the structured pass gives another number of rows, the run fails and
  no table is written: the structured pass drops exactly the blank lines, and on a blank
  line the content pass raises \<open>IndexError\<close>. A frame that is built has the rows of both
  passes, none dropped.
\<close>

theorem bgl_row_count_mismatch_fails:
  "(bgl_contents ls = Inr cs \<longrightarrow> length cs = length ls)
   \<and> (find_file fs dir bgl_file_pattern = Inr p \<and> structured_pass fs p = Inr df \<and>
      text_lines fs p = Some ls \<and> length (rows df) \<noteq> length ls \<longrightarrow>
        load_dataset_to_sqlite fs ins db ''bgl'' dir = (db, Failed IndexError))
   \<and> (find_file fs dir bgl_file_pattern = Inr p \<and> structured_pass fs p = Inr df \<and>
      text_lines fs p = Some ls \<and> bgl_frame fs dir = Inr res \<longrightarrow>
        length (rows df) = length ls \<and> length (rows res) = length ls)"
proof (intro conjI impI)
  show "length cs = length ls" if "bgl_contents ls = Inr cs"
    using that by (rule bgl_contents_length)
next
  assume a: "find_file fs dir bgl_file_pattern = Inr p \<and> structured_pass fs p = Inr df \<and>
      text_lines fs p = Some ls \<and> length (rows df) \<noteq> length ls"
  then have "length (filter (\<lambda>l. strip l \<noteq> []) ls) \<noteq> length ls"
    using structured_pass_rows [of fs p df ls] by simp
  then have "bgl_contents ls = Inl IndexError"
    by (intro blank_line_raises fewer_rows_blank_line)
  then have "bgl_attach df ls = Inl IndexError"
    by (simp add: bgl_attach_def)
  with a have "bgl_frame fs dir = Inl IndexError"
    by (simp add: bgl_frame_attach)
  then show "load_dataset_to_sqlite fs ins db ''bgl'' dir = (db, Failed IndexError)"
    by (simp add: load_dataset_to_sqlite_eq source_frame_def)
next
  assume a: "find_file fs dir bgl_file_pattern = Inr p \<and> structured_pass fs p = Inr df \<and>
      text_lines fs p = Some ls \<and> bgl_frame fs dir = Inr res"
  then have att: "bgl_attach df ls = Inr res"
    using bgl_frame_attach [of fs dir p df ls] by simp
  then obtain cs where cs: "bgl_contents ls = Inr cs"
    by (cases "bgl_contents ls") (simp_all add: bgl_attach_def)
  have "\<not> (\<exists>l \<in> set ls. strip l = [])"
    using blank_line_raises [of ls] cs by auto
  then have "filter (\<lambda>l. strip l \<noteq> []) ls = ls"
    by (simp add: filter_id_conv)
  with a show "length (rows df) = length ls"
    using structured_pass_rows [of fs p df ls] by simp
  show "length (rows res) = length ls"
    using att by (rule bgl_attach_line_ids(2))
qed

lemma sample_standardize:
  "standardize [\<lparr>columns = [''Date'', ''Content''], rows = [[S ''Dec'', S ''boot'']]\<rparr>] 0 ''Content'' ''mac'' =
     ([\<lparr>columns = [''Date'', ''Content''], rows = [[S ''Dec'', S ''boot'']]\<rparr>,
       \<lparr>columns = [''Date'', ''Content''], rows = [[S ''Dec'', S ''boot'']]\<rparr>,
       \<lparr>columns = [''LineId'', ''Content'', ''EventId'', ''EventTemplate'', ''Source''],
        rows = [[I 1, S ''boot'', PyNone, PyNone, S ''mac'']]\<rparr>],
      Inr 2)"
  by code_simp

theorem line_ids_contiguous_witness:
  "(\<exists>df. fst (load_dataset_to_sqlite sample_files accept_all Map.empty ''mac'' ''raw/mac'') ''logs_mac'' = Some df \<and>
         length (rows df) = 2 \<and> line_ids df = Some [1, 2])
   \<and> line_ids \<lparr>columns = ''LineId'' # bgl_columns @ [''Content''],
               rows = [I 1 # sample_structured_row @ [S ''cache parity error'']]\<rparr> = Some [1]
   \<and> line_ids (fst (standardize [\<lparr>columns = [''Date'', ''Content''], rows = [[S ''Dec'', S ''boot'']]\<rparr>]
                     0 ''Content'' ''mac'') ! 2) = Some [1]"
proof (intro conjI)
  let ?h = "[\<lparr>columns = [''Date'', ''Content''], rows = [[S ''Dec'', S ''boot'']]\<rparr>]"
  let ?b = "\<lparr>columns = ''LineId'' # bgl_columns @ [''Content''],
             rows = [I 1 # sample_structured_row @ [S ''cache parity error'']]\<rparr>"
  note mac = line_ids_contiguous
          [where fs = sample_files and ins = accept_all and db = Map.empty and name = "''mac''"
             and dir = "''raw/mac''" and n = 2 and r = 0 and h = ?h
             and content_col = "''Content''" and source = "''mac''" and res = 2]
  note bgl = line_ids_contiguous [where fs = sample_files and dir = "''raw/bgl''" and df = ?b]
  have loaded:
    "snd (load_dataset_to_sqlite sample_files accept_all Map.empty ''mac'' ''raw/mac'') = Loaded 2"
    by (simp add: load_dataset_to_sqlite_eq source_frame_def sample_mac_frame accept_all_def)
  from mac loaded
  have "\<exists>df. fst (load_dataset_to_sqlite sample_files accept_all Map.empty ''mac'' ''raw/mac'')
               (''logs_'' @ ''mac'') = Some df \<and>
         length (rows df) = 2 \<and> line_ids df = Some [1 .. int 2]"
    by blast
  then show "\<exists>df. fst (load_dataset_to_sqlite sample_files accept_all Map.empty ''mac'' ''raw/mac'')
                 ''logs_mac'' = Some df \<and>
         length (rows df) = 2 \<and> line_ids df = Some [1, 2]"
    by (simp add: upto.simps)
  from bgl sample_bgl_frame have "line_ids ?b = Some [1 .. int (length (rows ?b))]"
    by blast
  then show "line_ids ?b = Some [1]"
    by (simp add: upto.simps)
  have "0 < length ?h \<and> snd (standardize ?h 0 ''Content'' ''mac'') = Inr 2"
    by (simp add: sample_standardize)
  with mac have "line_ids (fst (standardize ?h 0 ''Content'' ''mac'') ! 2) =
      Some [1 .. int (length (rows (?h ! 0)))]"
    by blast
  then show "line_ids (fst (standardize ?h 0 ''Content'' ''mac'') ! 2) = Some [1]"
    by (simp add: upto.simps)
qed

theorem ingestion_replaces_table_witness:
  "load_dataset_to_sqlite sample_files accept_all
      (fst (load_dataset_to_sqlite sample_files accept_all
              [''logs_mac'' \<mapsto> \<lparr>columns = [''Old''], rows = [[S ''stale'']]\<rparr>] ''mac'' ''raw/mac''))
      ''mac'' ''raw/mac'' =
     load_dataset_to_sqlite sample_files accept_all
       [''logs_mac'' \<mapsto> \<lparr>columns = [''Old''], rows = [[S ''stale'']]\<rparr>] ''mac'' ''raw/mac''
   \<and> load_dataset_to_sqlite sample_files accept_all
       [''logs_mac'' \<mapsto> \<lparr>columns = [''Old''], rows = [[S ''stale'']]\<rparr>] ''mac'' ''raw/mac'' =
     ([''logs_mac'' \<mapsto>
         \<lparr>columns = [''LineId'', ''Month'', ''Date'', ''Time'', ''User'', ''Component'', ''PID'', ''Content''],
          rows = [[I 1, S ''Jan'', S ''1'', S ''00:00:01'', S ''host'', S ''kernel'', S ''123'', S ''boot complete''],
                  [I 2, S ''Feb'', S ''12'', S ''10:00:01'', S ''mb'', S ''app'', S ''7'', S ''x y'']]\<rparr>],
      Loaded 2)
   \<and> load_dataset_to_sqlite sample_files refuse_all
      (fst (load_dataset_to_sqlite sample_files refuse_all
              [''logs_mac'' \<mapsto> \<lparr>columns = [''Old''], rows = [[S ''stale'']]\<rparr>] ''mac'' ''raw/mac''))
      ''mac'' ''raw/mac'' =
     load_dataset_to_sqlite sample_files refuse_all
       [''logs_mac'' \<mapsto> \<lparr>columns = [''Old''], rows = [[S ''stale'']]\<rparr>] ''mac'' ''raw/mac''
   \<and> load_dataset_to_sqlite sample_files refuse_all
       [''logs_mac'' \<mapsto> \<lparr>columns = [''Old''], rows = [[S ''stale'']]\<rparr>] ''mac'' ''raw/mac'' =
     ([''logs_mac'' \<mapsto>
         \<lparr>columns = [''LineId'', ''Month'', ''Date'', ''Time'', ''User'', ''Component'', ''PID'', ''Content''],
          rows = []\<rparr>],
      Failed (DatabaseError ''Error binding parameter''))"
proof (intro conjI)
  let ?old = "[''logs_mac'' \<mapsto> \<lparr>columns = [''Old''], rows = [[S ''stale'']]\<rparr>]"
  note ok = ingestion_replaces_table
          [where fs = sample_files and ins = accept_all and db = ?old
             and name = "''mac''" and dir = "''raw/mac''" and n = 2]
  note bad = ingestion_replaces_table
          [where fs = sample_files and ins = refuse_all and db = ?old
             and name = "''mac''" and dir = "''raw/mac''" and n = 2]
  from ok show "load_dataset_to_sqlite sample_files accept_all
      (fst (load_dataset_to_sqlite sample_files accept_all ?old ''mac'' ''raw/mac'')) ''mac'' ''raw/mac'' =
     load_dataset_to_sqlite sample_files accept_all ?old ''mac'' ''raw/mac''"
    by (rule conjunct1)
  from bad show "load_dataset_to_sqlite sample_files refuse_all
      (fst (load_dataset_to_sqlite sample_files refuse_all ?old ''mac'' ''raw/mac'')) ''mac'' ''raw/mac'' =
     load_dataset_to_sqlite sample_files refuse_all ?old ''mac'' ''raw/mac''"
    by (rule conjunct1)
qed (simp_all add: load_dataset_to_sqlite_eq source_frame_def sample_mac_frame accept_all_def
       refuse_all_def)

theorem bgl_row_count_mismatch_fails_witness:
  "find_file sample_files ''raw/bgl_blank'' bgl_file_pattern = Inr ''raw/bgl_blank/BGL.log''
   \<and> structured_pass sample_files ''raw/bgl_blank/BGL.log'' =
       Inr \<lparr>columns = bgl_columns, rows = [sample_structured_row]\<rparr>
   \<and> map_option length (text_lines sample_files ''raw/bgl_blank/BGL.log'') = Some 2
   \<and> load_dataset_to_sqlite sample_files accept_all Map.empty ''bgl'' ''raw/bgl_blank'' =
       (Map.empty, Failed IndexError)"
proof (intro conjI)
  note t = bgl_row_count_mismatch_fails
          [where fs = sample_files and dir = "''raw/bgl_blank''" and p = "''raw/bgl_blank/BGL.log''"
             and df = "\<lparr>columns = bgl_columns, rows = [sample_structured_row]\<rparr>"
             and ins = accept_all and db = Map.empty
             and ls = "the (text_lines sample_files ''raw/bgl_blank/BGL.log'')"]
  show f: "find_file sample_files ''raw/bgl_blank'' bgl_file_pattern = Inr ''raw/bgl_blank/BGL.log''"
    by (rule sample_find)
  show s: "structured_pass sample_files ''raw/bgl_blank/BGL.log'' =
       Inr \<lparr>columns = bgl_columns, rows = [sample_structured_row]\<rparr>"
    by (rule sample_bgl_blank_pass)
  show l: "map_option length (text_lines sample_files ''raw/bgl_blank/BGL.log'') = Some 2"
    by (simp add: sample_files_simps sample_lines_def)
  have "text_lines sample_files ''raw/bgl_blank/BGL.log'' =
          Some (the (text_lines sample_files ''raw/bgl_blank/BGL.log''))
        \<and> length (rows \<lparr>columns = bgl_columns, rows = [sample_structured_row]\<rparr>) \<noteq>
          length (the (text_lines sample_files ''raw/bgl_blank/BGL.log''))"
    by (simp add: sample_files_simps sample_lines_def)
  with t f s show "load_dataset_to_sqlite sample_files accept_all Map.empty ''bgl'' ''raw/bgl_blank'' =
       (Map.empty, Failed IndexError)"
    by blast
qed

section \<open>The fallback of the normalizer for the default content field\<close>

lemma map_zip_replicate:
  "length ys = n \<Longrightarrow> map (\<lambda>(x, y). f x y) (zip (replicate n v) ys) = map (f v) ys"
  by (induction ys arbitrary: n) auto

lemma put_column_new_scalar:
  "name \<notin> set cs \<Longrightarrow>
   set_item_scalar name v \<lparr>columns = cs, rows = rs\<rparr> =
     \<lparr>columns = cs @ [name], rows = map (\<lambda>r. r @ [v]) rs\<rparr>"
  using map_zip_replicate [of rs "length rs" "\<lambda>x r. r @ [x]" v]
  by (simp add: set_item_scalar_def put_column_def index_of_None_iff [symmetric])

lemma select_last_column:
  assumes "name \<notin> set cs" and "length vs = length rs"
    and "list_all (\<lambda>r. length r = length cs) rs"
  shows "select [name] \<lparr>columns = cs @ [name], rows = map (\<lambda>(v, r). r @ [v]) (zip vs rs)\<rparr> =
           Inr \<lparr>columns = [name], rows = map (\<lambda>v. [v]) vs\<rparr>"
proof -
  have i: "index_of name (cs @ [name]) = Some (length cs)"
    using assms(1) by (rule index_of_append)
  have "map (\<lambda>r. [cell_at (length cs) r]) (map (\<lambda>(v, r). r @ [v]) (zip vs rs)) =
        map (\<lambda>p. [fst p]) (zip vs rs)"
  proof -
    have "cell_at (length cs) (snd p @ [fst p]) = fst p" if "p \<in> set (zip vs rs)" for p
    proof -
      from that have "snd p \<in> set rs" by (metis prod.collapse set_zip_rightD)
      with assms(3) have "length (snd p) = length cs" by (simp add: list_all_iff)
      then show ?thesis by (simp add: cell_at_def nth_append)
    qed
    then show ?thesis by (simp add: case_prod_beta)
  qed
  also have "\<dots> = map (\<lambda>v. [v]) (map fst (zip vs rs))" by simp
  also have "map fst (zip vs rs) = vs" using assms(2) by (simp add: map_fst_zip)
  finally show ?thesis using i by (simp add: select_def)
qed

lemma numbered_rows_singletons:
  "numbered_rows (map (\<lambda>v. [v]) vs) = map (\<lambda>(i, v). [I i, v]) (zip [1 .. int (length vs)] vs)"
  by (simp add: numbered_rows_def zip_map2 case_prod_beta)

text \<open>
  When the designated field is the default \<open>Content\<close> and the table has rows and no such
  column, the fallback does what it is meant to: the result holds, per row, the cells of
  the row as text joined by a space.
\<close>

lemma standardize_fallback_default:
  assumes r: "r < length h"
    and absent: "''Content'' \<notin> set (columns (h ! r))"
    and some: "rows (h ! r) \<noteq> []"
    and wf: "list_all (\<lambda>row. length row = length (columns (h ! r))) (rows (h ! r))"
  shows "standardize h r ''Content'' source =
           (h[r := put_column ''Content'' (joined_rows (h ! r)) (h ! r)] @
              [\<lparr>columns = [''LineId'', ''Content'', ''EventId'', ''EventTemplate'', ''Source''],
                rows = map (\<lambda>(i, v). [I i, v, PyNone, PyNone, S source])
                         (zip [1 .. int (length (rows (h ! r)))] (joined_rows (h ! r)))\<rparr>],
            Inr (length h))"
proof -
  let ?d = "h ! r"
  let ?vs = "joined_rows ?d"
  let ?p = "put_column ''Content'' ?vs ?d"
  have n: "length ?vs = length (rows ?d)"
    by (simp add: joined_rows_def)
  have p: "?p = \<lparr>columns = columns ?d @ [''Content''],
                  rows = map (\<lambda>(v, row). row @ [v]) (zip ?vs (rows ?d))\<rparr>"
    using absent by (simp add: put_column_def index_of_None_iff [symmetric])
  have sel: "select [''Content''] ?p = Inr \<lparr>columns = [''Content''], rows = map (\<lambda>v. [v]) ?vs\<rparr>"
    unfolding p using absent n wf by (rule select_last_column)
  have ins: "insert_line_id (rename ''Content'' ''Content'' \<lparr>columns = [''Content''], rows = map (\<lambda>v. [v]) ?vs\<rparr>) =
      Inr \<lparr>columns = [''LineId'', ''Content''],
           rows = map (\<lambda>(i, v). [I i, v]) (zip [1 .. int (length (rows ?d))] ?vs)\<rparr>"
    using n by (simp add: rename_def insert_line_id_eq numbered_rows_singletons)
  have fr: "standardize_frame ?p ''Content'' source =
      Inr \<lparr>columns = [''LineId'', ''Content'', ''EventId'', ''EventTemplate'', ''Source''],
           rows = map (\<lambda>(i, v). [I i, v, PyNone, PyNone, S source])
                    (zip [1 .. int (length (rows ?d))] ?vs)\<rparr>"
    by (simp add: standardize_frame_def sel ins put_column_new_scalar case_prod_beta)
  show ?thesis
    using r absent some by (simp add: standardize_def fr)
qed

end
